theory Spec2Isabelle
  imports Main "HOL-Library.Sublist" "HOL-Library.Product_Lexorder" "HOL-Library.List_Lexorder"
    "HOL-Library.Char_ord"
begin

section \<open>Data model: the span tables of a QualCoder project\<close>

text \<open>
  The project database (qualcoder.py, lines 1198-1210) keeps three tables of character
  ranges over the text of a source file: \<open>code_text\<close> (coded spans), \<open>annotation\<close> and
  \<open>case_text\<close>. They share the columns \<open>fid, pos0, pos1, owner, date, memo\<close>; Python reads
  a row into a dict with these keys. Offsets are Python integers, so \<open>int\<close>.
  The column \<open>avid\<close> of \<open>code_text\<close> is never written by the code modelled here and is left out.
\<close>

record span_row =
  fid :: int
  pos0 :: int
  pos1 :: int
  owner :: string
  date :: string
  memo :: string

record code_row = span_row +
  cid :: int
  seltext :: string

record annotation_row = span_row +
  anid :: int

text \<open>Column \<open>id\<close> of \<open>case_text\<close> (its primary key) is called \<open>ctid\<close> here.\<close>

record case_row = span_row +
  ctid :: int
  caseid :: int

datatype error = IntegrityError

subsection \<open>SQL statements on a table held as the list of its rows\<close>

text \<open>
  \<open>code_text\<close> is declared \<open>unique(cid, fid, pos0, pos1, owner)\<close>. An insert or update that
  would leave two rows with one key raises sqlite3.IntegrityError and changes nothing.
  (For an update the final table is tested; on a table that satisfies the constraint this
  agrees with SQLite's test row by row, since every update statement of the program moves
  all rows it selects from one range to one other range.)
\<close>

definition code_key :: "code_row \<Rightarrow> int \<times> int \<times> int \<times> int \<times> string" where
  "code_key r = (cid r, fid r, pos0 r, pos1 r, owner r)"

definition unique_code_text :: "code_row list \<Rightarrow> bool" where
  "unique_code_text rows = distinct (map code_key rows)"

definition insert_code_text :: "code_row \<Rightarrow> code_row list \<Rightarrow> error + code_row list" where
  "insert_code_text r rows =
     (if code_key r \<in> set (map code_key rows) then Inl IntegrityError else Inr (rows @ [r]))"

definition sql_update :: "('a \<Rightarrow> bool) \<Rightarrow> ('a \<Rightarrow> 'a) \<Rightarrow> 'a list \<Rightarrow> 'a list" where
  "sql_update P f rows = map (\<lambda>r. if P r then f r else r) rows"

definition update_code_text ::
  "(code_row \<Rightarrow> bool) \<Rightarrow> (code_row \<Rightarrow> code_row) \<Rightarrow> code_row list \<Rightarrow> error + code_row list" where
  "update_code_text P f rows =
     (let rows' = sql_update P f rows
      in if unique_code_text rows' then Inr rows' else Inl IntegrityError)"

text \<open>
  A select statement without \<open>order by\<close> returns rows in the order of the scan. The
  statements of manage_files.py that read \<open>code_text\<close> name only columns of its unique
  index, and SQLite answers them from that index: the rows come ordered by
  \<open>(cid, fid, pos0, pos1, owner)\<close>, numbers by value and the owner's name character by
  character. \<open>annotation\<close> and \<open>case_text\<close> have no index but their primary key and are
  scanned in the order of their rows.
\<close>

definition index_order :: "code_row list \<Rightarrow> code_row list" where
  "index_order rows = sort_key code_key rows"

definition sql_delete :: "('a \<Rightarrow> bool) \<Rightarrow> 'a list \<Rightarrow> 'a list" where
  "sql_delete P rows = filter (\<lambda>r. \<not> P r) rows"

text \<open>Python's \<open>s[a:b]\<close> on a string, negative indices counted from the end.\<close>

definition py_index :: "nat \<Rightarrow> int \<Rightarrow> nat" where
  "py_index n i = (if i < 0 then nat (int n + i) else min (nat i) n)"

definition py_slice :: "string \<Rightarrow> int \<Rightarrow> int \<Rightarrow> string" where
  "py_slice s a b = (let lo = py_index (length s) a; hi = py_index (length s) b
                     in take (hi - lo) (drop lo s))"

section \<open>DialogCodeText (code_text.py): coding one text file\<close>

text \<open>
  The dialog works on the tables and on its own copies: \<open>self.code_text\<close> (the coded spans
  of the open file by the current coder) and \<open>self.annotations\<close> (the current coder's
  annotations in all files). \<open>filename\<close> is the id of the open file (\<open>None\<close>: no file
  loaded), \<open>codername\<close> is \<open>app.settings['codername']\<close>, \<open>plain_text\<close> is the text shown
  in the editor.
\<close>

record database =
  code_text :: "code_row list"
  annotation :: "annotation_row list"
  case_text :: "case_row list"

record dialog_code_text = database +
  self_code_text :: "code_row list"
  self_annotations :: "annotation_row list"
  filename :: "int option"
  codername :: string
  plain_text :: string

text \<open>
  \<open>get_coded_text_update_eventfilter_tooltips\<close> (lines 1274-1294) reloads
  \<open>self.code_text\<close>: the rows of the open file by the current coder, longest \<open>seltext\<close>
  first.
\<close>

definition get_coded_text_update_eventfilter_tooltips :: "dialog_code_text \<Rightarrow> dialog_code_text" where
  "get_coded_text_update_eventfilter_tooltips d =
     (case filename d of
        None \<Rightarrow> d
      | Some f \<Rightarrow>
          d\<lparr>self_code_text :=
              sort_key (\<lambda>r. - int (length (seltext r)))
                (filter (\<lambda>r. fid r = f \<and> owner r = codername d) (code_text d))\<rparr>)"

subsection \<open>The four directional resize operations (lines 659-713)\<close>

text \<open>
  Each takes the dict \<open>code_\<close> (here \<open>code\<close>), an item of \<open>self.code_text\<close>, here by
  its index \<open>k\<close>. It changes the item in place, then updates the table row with the item's key, then reloads.
  The result is the exception raised (if any) and the state left behind.
\<close>

definition resize_row ::
  "nat \<Rightarrow> code_row \<Rightarrow> (code_row \<Rightarrow> bool) \<Rightarrow> (code_row \<Rightarrow> code_row) \<Rightarrow> dialog_code_text
     \<Rightarrow> error option \<times> dialog_code_text" where
  "resize_row k code' P f d =
     (let d1 = d\<lparr>self_code_text := (self_code_text d)[k := code']\<rparr>
      in case update_code_text P f (code_text d1) of
           Inl e \<Rightarrow> (Some e, d1)
         | Inr t \<Rightarrow> (None, get_coded_text_update_eventfilter_tooltips (d1\<lparr>code_text := t\<rparr>)))"

definition extend_left :: "nat \<Rightarrow> dialog_code_text \<Rightarrow> error option \<times> dialog_code_text" where
  "extend_left k d =
     (let code = self_code_text d ! k
      in if pos0 code < 1 then (None, d)
         else let code' = code\<lparr>pos0 := pos0 code - 1\<rparr>
              in resize_row k code'
                   (\<lambda>r. cid r = cid code' \<and> fid r = fid code' \<and> pos0 r = pos0 code' + 1
                        \<and> pos1 r = pos1 code' \<and> owner r = codername d)
                   (\<lambda>r. r\<lparr>pos0 := pos0 code'\<rparr>) d)"

definition extend_right :: "nat \<Rightarrow> dialog_code_text \<Rightarrow> error option \<times> dialog_code_text" where
  "extend_right k d =
     (let code = self_code_text d ! k
      in if pos1 code + 1 \<ge> int (length (plain_text d)) then (None, d)
         else let code' = code\<lparr>pos1 := pos1 code + 1\<rparr>
              in resize_row k code'
                   (\<lambda>r. cid r = cid code' \<and> fid r = fid code' \<and> pos0 r = pos0 code'
                        \<and> pos1 r = pos1 code' - 1 \<and> owner r = codername d)
                   (\<lambda>r. r\<lparr>pos1 := pos1 code'\<rparr>) d)"

definition shrink_to_left :: "nat \<Rightarrow> dialog_code_text \<Rightarrow> error option \<times> dialog_code_text" where
  "shrink_to_left k d =
     (let code = self_code_text d ! k
      in if pos1 code \<le> pos0 code + 1 then (None, d)
         else let code' = code\<lparr>pos1 := pos1 code - 1\<rparr>
              in resize_row k code'
                   (\<lambda>r. cid r = cid code' \<and> fid r = fid code' \<and> pos0 r = pos0 code'
                        \<and> pos1 r = pos1 code' + 1 \<and> owner r = codername d)
                   (\<lambda>r. r\<lparr>pos1 := pos1 code'\<rparr>) d)"

definition shrink_to_right :: "nat \<Rightarrow> dialog_code_text \<Rightarrow> error option \<times> dialog_code_text" where
  "shrink_to_right k d =
     (let code = self_code_text d ! k
      in if pos0 code \<ge> pos1 code - 1 then (None, d)
         else let code' = code\<lparr>pos0 := pos0 code + 1\<rparr>
              in resize_row k code'
                   (\<lambda>r. cid r = cid code' \<and> fid r = fid code' \<and> pos0 r = pos0 code' - 1
                        \<and> pos1 r = pos1 code' \<and> owner r = codername d)
                   (\<lambda>r. r\<lparr>pos0 := pos0 code'\<rparr>) d)"

text \<open>
  The items of \<open>self.code_text\<close> under a text position that belong to the current coder
  (lines 645-647, 511-513, 1517-1519), as indices into the list.
\<close>

definition codes_at :: "int \<Rightarrow> dialog_code_text \<Rightarrow> nat list" where
  "codes_at location d =
     filter (\<lambda>k. location \<ge> pos0 (self_code_text d ! k) \<and> location \<le> pos1 (self_code_text d ! k)
                 \<and> owner (self_code_text d ! k) = codername d)
       [0 ..< length (self_code_text d)]"

subsection \<open>\<open>change_code_pos\<close> (lines 507-559): the direct change of start or end\<close>

text \<open>
  \<open>choice\<close> is the answer of the selection dialog shown when several codes lie under the
  position (\<open>None\<close>: cancelled, \<open>Some j\<close>: the j-th offered item). \<open>entered\<close> is the answer
  of \<open>QInputDialog.getInt(..., 0, min, max, 1)\<close> (\<open>None\<close>: cancelled); Qt returns a
  number between \<open>min\<close> and \<open>max\<close>, computed here by \<open>start_range\<close> and \<open>end_range\<close>.
\<close>

definition start_range :: "code_row \<Rightarrow> int \<times> int" where
  "start_range c = (-1 * pos0 c, pos1 c - pos0 c - 1)"

definition end_range :: "nat \<Rightarrow> code_row \<Rightarrow> int \<times> int" where
  "end_range txt_len c = (pos0 c - pos1 c + 1, int txt_len - pos1 c)"

definition apply_change :: "nat \<Rightarrow> int \<Rightarrow> int \<Rightarrow> dialog_code_text \<Rightarrow> error option \<times> dialog_code_text" where
  "apply_change k changed_start changed_end d =
     (if changed_start = 0 \<and> changed_end = 0 then (None, d)
      else let c = self_code_text d ! k;
               new_pos0 = pos0 c + changed_start;
               new_pos1 = pos1 c + changed_end
      in case update_code_text
                (\<lambda>r. cid r = cid c \<and> fid r = fid c \<and> pos0 r = pos0 c \<and> pos1 r = pos1 c
                     \<and> owner r = codername d)
                (\<lambda>r. r\<lparr>pos0 := new_pos0, pos1 := new_pos1\<rparr>) (code_text d) of
           Inl e \<Rightarrow> (Some e, d)
         | Inr t \<Rightarrow> (None, get_coded_text_update_eventfilter_tooltips (d\<lparr>code_text := t\<rparr>)))"

definition code_to_edit :: "int \<Rightarrow> nat option \<Rightarrow> dialog_code_text \<Rightarrow> nat option" where
  "code_to_edit location choice d =
     (let code_list = codes_at location d
      in if code_list = [] then None
         else if length code_list = 1 then Some (code_list ! 0)
         else case choice of
                None \<Rightarrow> None
              | Some j \<Rightarrow> if j < length code_list then Some (code_list ! j) else None)"

definition change_code_pos ::
  "int \<Rightarrow> string \<Rightarrow> nat option \<Rightarrow> int option \<Rightarrow> dialog_code_text \<Rightarrow> error option \<times> dialog_code_text" where
  "change_code_pos location start_or_end choice entered d =
     (if filename d = None then (None, d)
      else case code_to_edit location choice d of
             None \<Rightarrow> (None, d)
           | Some k \<Rightarrow>
              (if start_or_end = ''start'' then
                 (case entered of None \<Rightarrow> (None, d) | Some v \<Rightarrow> apply_change k v 0 d)
               else if start_or_end = ''end'' then
                 (case entered of None \<Rightarrow> (None, d) | Some v \<Rightarrow> apply_change k 0 v d)
               else apply_change k 0 0 d))"

definition within :: "int \<times> int \<Rightarrow> int \<Rightarrow> bool" where
  "within bounds v = (fst bounds \<le> v \<and> v \<le> snd bounds)"

text \<open>The data model's range condition \<open>start < end\<close>, for the table and the dialog's copy.\<close>

definition valid_spans :: "dialog_code_text \<Rightarrow> bool" where
  "valid_spans d = (list_all (\<lambda>r. pos0 r < pos1 r) (code_text d)
                    \<and> list_all (\<lambda>r. pos0 r < pos1 r) (self_code_text d))"

subsection \<open>Example states\<close>

definition code_span :: "int \<Rightarrow> int \<Rightarrow> string \<Rightarrow> int \<Rightarrow> int \<Rightarrow> string \<Rightarrow> code_row" where
  "code_span c f who p0 p1 txt =
     \<lparr>fid = f, pos0 = p0, pos1 = p1, owner = who, date = ''2020-05-01 10:00:00'', memo = '''',
      cid = c, seltext = txt\<rparr>"

text \<open>File 1 open for coder A, the dialog's copy in step with the table.\<close>

definition coding_dialog :: "code_row list \<Rightarrow> string \<Rightarrow> dialog_code_text" where
  "coding_dialog rows txt =
     \<lparr>code_text = rows, annotation = [], case_text = [], self_code_text = rows,
      self_annotations = [], filename = Some 1, codername = ''A'', plain_text = txt\<rparr>"

definition cat_text :: string where
  "cat_text = ''The cat sat. The dog ran.''"


subsection \<open>\<open>apply_overline_to_overlaps\<close> (lines 1344-1371)\<close>

text \<open>
  The body of the two nested loops for one pair of items: what the iteration with outer
  item \<open>i\<close> and inner item \<open>j\<close> appends to the list \<open>overlaps\<close>. \<open>j != i\<close> compares the
  two dicts by value.
\<close>

definition overlap_of :: "code_row \<Rightarrow> code_row \<Rightarrow> (int \<times> int) list" where
  "overlap_of i j =
     (if j \<noteq> i then
        (if pos0 j \<le> pos0 i \<and> pos1 j \<ge> pos0 i then
           (if pos0 j \<ge> pos0 i \<and> pos1 j \<le> pos1 i then [(pos0 j, pos1 j)]
            else if pos0 i \<ge> pos0 j \<and> pos1 i \<le> pos1 j then [(pos0 i, pos1 i)]
            else if pos0 j > pos0 i then [(pos0 j, pos1 i)]
            else [(pos1 j, pos0 i)])
         else [])
      else [])"

text \<open>
  The list \<open>overlaps\<close> after the loops; the function then overlines the text between
  \<open>o[0]\<close> and \<open>o[1]\<close> for each entry \<open>o\<close>.
\<close>

definition apply_overline_to_overlaps :: "code_row list \<Rightarrow> (int \<times> int) list" where
  "apply_overline_to_overlaps rows =
     concat (map (\<lambda>i. concat (map (\<lambda>j. overlap_of i j) rows)) rows)"

subsection \<open>\<open>mark\<close> (lines 1462-1509) and \<open>unmark\<close> (lines 1511-1547)\<close>

text \<open>
  The current item of the code tree is a code (\<open>cid:n\<close>) or a category (\<open>catid:n\<close>).
  A message is a warning box shown to the user.
\<close>

datatype tree_item = Code_item int | Category_item int

datatype message = No_file_was_selected | No_code_was_selected | Already_Coded string

text \<open>
  \<open>mark item selectedText pos0 pos1 now\<close>: the selection of the editor is
  \<open>[pos0, pos1)\<close> with text \<open>selectedText\<close>, \<open>now\<close> is the time stamp. The exception of the
  insert statement is caught and logged.
\<close>

definition mark ::
  "tree_item option \<Rightarrow> string \<Rightarrow> int \<Rightarrow> int \<Rightarrow> string \<Rightarrow> dialog_code_text
     \<Rightarrow> message option \<times> dialog_code_text" where
  "mark item selectedText p0 p1 now d =
     (case filename d of
        None \<Rightarrow> (Some No_file_was_selected, d)
      | Some f \<Rightarrow>
         (case item of
            None \<Rightarrow> (Some No_code_was_selected, d)
          | Some (Category_item c) \<Rightarrow> (None, d)
          | Some (Code_item c) \<Rightarrow>
             (if p0 = p1 then (None, d)
              else let coded = \<lparr>fid = f, pos0 = p0, pos1 = p1, owner = codername d, date = now,
                                 memo = '''', cid = c, seltext = selectedText\<rparr>;
                       result = filter (\<lambda>r. cid r = cid coded \<and> fid r = fid coded \<and> pos0 r = pos0 coded
                                              \<and> pos1 r = pos1 coded \<and> owner r = owner coded) (code_text d)
              in if length result > 0 then (Some (Already_Coded (owner coded)), d)
                 else let d1 = d\<lparr>self_code_text := self_code_text d @ [coded]\<rparr>
                      in (case insert_code_text coded (code_text d1) of
                            Inl e \<Rightarrow> (None, d1)
                          | Inr t \<Rightarrow> (None, d1\<lparr>code_text := t\<rparr>)))))"

definition to_unmark :: "int \<Rightarrow> nat option \<Rightarrow> dialog_code_text \<Rightarrow> nat option" where
  "to_unmark location choice d =
     (let unmarked_list = codes_at location d
      in if unmarked_list = [] then None
         else if length unmarked_list = 1 then Some (unmarked_list ! 0)
         else case choice of
                None \<Rightarrow> None
              | Some j \<Rightarrow> if j < length unmarked_list then Some (unmarked_list ! j) else None)"

definition unmark :: "int \<Rightarrow> nat option \<Rightarrow> dialog_code_text \<Rightarrow> dialog_code_text" where
  "unmark location choice d =
     (if filename d = None then d
      else case to_unmark location choice d of
             None \<Rightarrow> d
           | Some k \<Rightarrow>
              (let u = self_code_text d ! k
               in get_coded_text_update_eventfilter_tooltips
                    (d\<lparr>code_text :=
                         sql_delete (\<lambda>r. cid r = cid u \<and> pos0 r = pos0 u \<and> pos1 r = pos1 u
                                         \<and> owner r = codername d \<and> fid r = fid u) (code_text d),
                       self_code_text := remove1 u (self_code_text d)\<rparr>)))"

subsection \<open>\<open>annotate\<close> (lines 1549-1607)\<close>

text \<open>
  The annotation under the position: the loop keeps the last item of \<open>self.annotations\<close>
  that matches, here by its index.
\<close>

definition note_at :: "int \<Rightarrow> dialog_code_text \<Rightarrow> nat option" where
  "note_at location d =
     (case filter (\<lambda>k. location \<ge> pos0 (self_annotations d ! k)
                        \<and> location \<le> pos1 (self_annotations d ! k)
                        \<and> Some (fid (self_annotations d ! k)) = filename d)
             [0 ..< length (self_annotations d)] of
        [] \<Rightarrow> None
      | ks \<Rightarrow> Some (last ks))"

text \<open>
  \<open>for note in self.annotations: if ...: self.annotations.remove(note)\<close>: the loop walks
  the list by index while \<open>remove\<close> deletes the first item equal to \<open>note\<close>, so the item
  after a removed one is skipped.
\<close>

function remove_notes :: "(annotation_row \<Rightarrow> bool) \<Rightarrow> nat \<Rightarrow> annotation_row list \<Rightarrow> annotation_row list" where
  "remove_notes P idx xs =
     (if idx < length xs
      then (if P (xs ! idx) then remove_notes P (idx + 1) (remove1 (xs ! idx) xs)
            else remove_notes P (idx + 1) xs)
      else xs)"
  by pat_completeness auto
termination
  by (relation "measure (\<lambda>(P, idx, xs). length xs - idx)") (auto simp: length_remove1)

text \<open>
  \<open>annotate location pos0 pos1 ui_memo now\<close>: the selection is \<open>[pos0, pos1)\<close>, \<open>ui_memo\<close>
  is the text the memo dialog returns. A memo that is not empty is stored as a new row,
  whose \<open>anid\<close> the database assigns (here one more than the largest in the table); an
  empty memo deletes. The item is changed in place, so an item found in
  \<open>self.annotations\<close> changes there too.
\<close>

definition last_insert_rowid :: "annotation_row list \<Rightarrow> int" where
  "last_insert_rowid rows = fold max (map anid rows) 0 + 1"

definition annotate ::
  "int \<Rightarrow> int \<Rightarrow> int \<Rightarrow> string \<Rightarrow> string \<Rightarrow> dialog_code_text \<Rightarrow> message option \<times> dialog_code_text" where
  "annotate location p0 p1 ui_memo now d =
     (case filename d of
        None \<Rightarrow> (Some No_file_was_selected, d)
      | Some f \<Rightarrow>
         (let text_length = int (length (plain_text d))
          in if p0 \<ge> text_length \<or> p1 \<ge> text_length then (None, d)
             else let found = note_at location d
             in if p0 = p1 \<and> found = None then (None, d)
                else let item = (case found of
                                   None \<Rightarrow> \<lparr>fid = f, pos0 = p0, pos1 = p1, owner = codername d,
                                              date = now, memo = ui_memo, anid = -1\<rparr>
                                 | Some k \<Rightarrow> (self_annotations d ! k)\<lparr>memo := ui_memo\<rparr>);
                         notes = (case found of
                                    None \<Rightarrow> self_annotations d
                                  | Some k \<Rightarrow> (self_annotations d)[k := item])
                in if ui_memo \<noteq> ''''
                   then let new_anid = last_insert_rowid (annotation d);
                            row = item\<lparr>anid := new_anid\<rparr>;
                            notes' = (case found of
                                        None \<Rightarrow> notes
                                      | Some k \<Rightarrow> notes[k := row])
                        in (None, d\<lparr>annotation := annotation d @ [row],
                                     self_annotations := notes' @ [row]\<rparr>)
                   else (None, d\<lparr>annotation := sql_delete (\<lambda>r. pos0 r = pos0 item) (annotation d),
                                  self_annotations :=
                                    remove_notes (\<lambda>note. pos0 note = pos0 item \<and> fid note = fid item)
                                      0 notes\<rparr>)))"

definition note_row :: "int \<Rightarrow> int \<Rightarrow> string \<Rightarrow> int \<Rightarrow> int \<Rightarrow> string \<Rightarrow> annotation_row" where
  "note_row a f who p0 p1 txt =
     \<lparr>fid = f, pos0 = p0, pos1 = p1, owner = who, date = ''2020-05-01 10:00:00'', memo = txt,
      anid = a\<rparr>"

text \<open>Coder A has file 1 open; coder B has annotated file 2 from the same offset.\<close>

definition two_coders :: dialog_code_text where
  "two_coders =
     \<lparr>code_text = [], annotation = [note_row 1 1 ''A'' 5 10 ''mine'', note_row 2 2 ''B'' 5 9 ''theirs''],
      case_text = [], self_code_text = [], self_annotations = [note_row 1 1 ''A'' 5 10 ''mine''],
      filename = Some 1, codername = ''A'', plain_text = cat_text\<rparr>"

section \<open>DialogManageFiles (manage_files.py): editing the text of a coded file\<close>

text \<open>
  \<open>source_x\<close> is \<open>self.source[x]\<close>, the file shown in the current table row; the dialog
  writes its \<open>fulltext\<close> to the table \<open>source\<close> in the same step, so one copy is kept.
  Of the columns of \<open>source\<close> only \<open>id\<close> (here \<open>sid\<close>), \<open>name\<close> and \<open>fulltext\<close> are used.
  The text view shows this \<open>fulltext\<close>, so the selected text of its cursor is the slice
  of \<open>fulltext\<close> between the selection start and end (positions of the editor and indices
  of the Python string are taken to agree).
\<close>

record source_row =
  sid :: int
  name :: string
  fulltext :: string

record dialog_manage_files = database +
  source_x :: source_row

text \<open>The warning boxes of the dialog, with the rows or the length they show.\<close>

datatype warning =
    Codes_cross_over_text "(int \<times> int) list"
  | Annotations_cross_over_text "(int \<times> int) list"
  | Too_much_text_selected nat

record response =
  crossover :: bool
  coded_section :: "(int \<times> int) list"
  annoted_section :: "(int \<times> int) list"
  cased_section :: "(int \<times> int \<times> int) list"

subsection \<open>\<open>crossover_check\<close> (lines 665-721)\<close>

text \<open>
  The \<open>where\<close> clauses of the two kinds of query: rows of the file with \<open>pos0\<close> or
  \<open>pos1\<close> strictly inside the selection (\<open>(pos0>? and pos0<?) or (pos1>? and pos1<?)\<close>),
  and rows of the file that contain the selection (\<open>?>=pos0 and ?<=pos1\<close>). The rows of
  \<open>code_text\<close> that a clause selects are fetched in \<open>index_order\<close>.
\<close>

definition crossing :: "int \<Rightarrow> int \<Rightarrow> int \<Rightarrow> ('a span_row_scheme) list \<Rightarrow> ('a span_row_scheme) list" where
  "crossing f selstart selend rows =
     filter (\<lambda>r. fid r = f \<and> ((pos0 r > selstart \<and> pos0 r < selend) \<or> (pos1 r > selstart \<and> pos1 r < selend))) rows"

definition containing :: "int \<Rightarrow> int \<Rightarrow> int \<Rightarrow> ('a span_row_scheme) list \<Rightarrow> ('a span_row_scheme) list" where
  "containing f selstart selend rows =
     filter (\<lambda>r. fid r = f \<and> selstart \<ge> pos0 r \<and> selend \<le> pos1 r) rows"

definition crossover_check :: "dialog_manage_files \<Rightarrow> int \<Rightarrow> int \<Rightarrow> response \<times> warning list" where
  "crossover_check d selstart selend =
     (let response = \<lparr>crossover = True, coded_section = [], annoted_section = [], cased_section = []\<rparr>;
          f = sid (source_x d);
          code_crossover = map (\<lambda>r. (pos0 r, pos1 r))
                             (index_order (crossing f selstart selend (code_text d)))
      in if code_crossover \<noteq> [] then (response, [Codes_cross_over_text code_crossover])
         else let response1 = response\<lparr>coded_section :=
                                 map (\<lambda>r. (pos0 r, pos1 r))
                                   (index_order (containing f selstart selend (code_text d)))\<rparr>;
                  annote_crossover = map (\<lambda>r. (pos0 r, pos1 r)) (crossing f selstart selend (annotation d))
              in if annote_crossover \<noteq> [] then (response1, [Annotations_cross_over_text annote_crossover])
                 else (response1\<lparr>annoted_section :=
                                    map (\<lambda>r. (pos0 r, pos1 r)) (containing f selstart selend (annotation d)),
                                  crossover := False,
                                  cased_section :=
                                    map (\<lambda>r. (pos0 r, pos1 r, ctid r)) (containing f selstart selend (case_text d))\<rparr>,
                       []))"

subsection \<open>\<open>restricted_edit_text\<close> (lines 723-837)\<close>

text \<open>
  A loop of update statements on \<open>code_text\<close>, one per fetched row; it stops at the first
  statement that raises, with the earlier statements done.
\<close>

fun update_each ::
  "('i \<Rightarrow> code_row list \<Rightarrow> error + code_row list) \<Rightarrow> 'i list \<Rightarrow> code_row list
     \<Rightarrow> error option \<times> code_row list" where
  "update_each step [] t = (None, t)"
| "update_each step (i # is) t =
     (case step i t of Inl e \<Rightarrow> (Some e, t) | Inr t' \<Rightarrow> update_each step is t')"

text \<open>
  \<open>update code_text set pos0=?,pos1=? where fid=? and pos0=? and pos1=?\<close> (line 811) and
  \<open>update code_text set seltext=?,pos1=? where fid=? and pos0=? and pos1=?\<close> (line 823),
  for one fetched row \<open>i = (pos0, pos1)\<close>.
\<close>

definition shift_code_text :: "int \<Rightarrow> int \<Rightarrow> int \<times> int \<Rightarrow> code_row list \<Rightarrow> error + code_row list" where
  "shift_code_text f length_diff i t =
     update_code_text (\<lambda>r. fid r = f \<and> pos0 r = fst i \<and> pos1 r = snd i)
       (\<lambda>r. r\<lparr>pos0 := fst i + length_diff, pos1 := snd i + length_diff\<rparr>) t"

definition grow_code_text :: "string \<Rightarrow> int \<Rightarrow> int \<Rightarrow> int \<times> int \<Rightarrow> code_row list \<Rightarrow> error + code_row list" where
  "grow_code_text text f length_diff i t =
     update_code_text (\<lambda>r. fid r = f \<and> pos0 r = fst i \<and> pos1 r = snd i)
       (\<lambda>r. r\<lparr>seltext := py_slice text (fst i) (snd i + length_diff), pos1 := snd i + length_diff\<rparr>) t"

text \<open>
  The \<open>where\<close> clause for the rows of the file after the selection:
  \<open>pos1>? and not(?>=pos0 and ?<=pos1)\<close> (lines 782-795). The rows of \<open>code_text\<close> it
  selects are fetched in \<open>index_order\<close>.
\<close>

definition post_linked :: "int \<Rightarrow> int \<Rightarrow> int \<Rightarrow> ('a span_row_scheme) list \<Rightarrow> ('a span_row_scheme) list" where
  "post_linked f selstart selend rows =
     filter (\<lambda>r. fid r = f \<and> pos1 r > selend \<and> \<not> (selstart \<ge> pos0 r \<and> selend \<le> pos1 r)) rows"

text \<open>Lines 780-813: move the case links, annotations and codes after the selection.\<close>

definition update_after_selection ::
  "dialog_manage_files \<Rightarrow> int \<Rightarrow> int \<Rightarrow> int \<Rightarrow> error option \<times> dialog_manage_files" where
  "update_after_selection d selstart selend length_diff =
     (let f = sid (source_x d);
          post_case_linked = map (\<lambda>r. (ctid r, pos0 r, pos1 r)) (post_linked f selstart selend (case_text d));
          post_annote_linked = map (\<lambda>r. (anid r, pos0 r, pos1 r)) (post_linked f selstart selend (annotation d));
          post_code_linked = map (\<lambda>r. (pos0 r, pos1 r))
                               (index_order (post_linked f selstart selend (code_text d)));
          cases' = fold (\<lambda>(i0, i1, i2). sql_update (\<lambda>r. ctid r = i0)
                           (\<lambda>r. r\<lparr>pos0 := i1 + length_diff, pos1 := i2 + length_diff\<rparr>))
                     post_case_linked (case_text d);
          annotes' = fold (\<lambda>(i0, i1, i2). sql_update (\<lambda>r. anid r = i0)
                             (\<lambda>r. r\<lparr>pos0 := i1 + length_diff, pos1 := i2 + length_diff\<rparr>))
                       post_annote_linked (annotation d)
      in case update_each (shift_code_text f length_diff) post_code_linked (code_text d) of
           (err, codes') \<Rightarrow> (err, d\<lparr>code_text := codes', annotation := annotes', case_text := cases'\<rparr>))"

text \<open>
  Lines 815-835: a second \<open>crossover_check\<close> (which may show its warning again), then the
  codes, annotations and case links that contain the selection get a new \<open>pos1\<close>, and the
  codes a new \<open>seltext\<close>.
\<close>

definition update_selected_section ::
  "dialog_manage_files \<Rightarrow> int \<Rightarrow> int \<Rightarrow> int \<Rightarrow> error option \<times> dialog_manage_files \<times> warning list" where
  "update_selected_section d selstart selend length_diff =
     (let f = sid (source_x d)
      in case crossover_check d selstart selend of
           (crossovers, shown) \<Rightarrow>
            (case update_each (grow_code_text (fulltext (source_x d)) f length_diff)
                    (coded_section crossovers) (code_text d) of
               (Some e, codes') \<Rightarrow> (Some e, d\<lparr>code_text := codes'\<rparr>, shown)
             | (None, codes') \<Rightarrow>
                 (None,
                  d\<lparr>code_text := codes',
                    annotation :=
                      fold (\<lambda>(i0, i1). sql_update (\<lambda>r. fid r = f \<and> pos0 r = i0 \<and> pos1 r = i1)
                                         (\<lambda>r. r\<lparr>pos1 := i1 + length_diff\<rparr>))
                        (annoted_section crossovers) (annotation d),
                    case_text :=
                      fold (\<lambda>(i0, i1, i2). sql_update (\<lambda>r. fid r = f \<and> pos0 r = i0 \<and> pos1 r = i1)
                                             (\<lambda>r. r\<lparr>pos1 := i1 + length_diff\<rparr>))
                        (cased_section crossovers) (case_text d)\<rparr>,
                  shown)))"

text \<open>
  \<open>restricted_edit_text d selstart selend answer\<close>: the selection of the text cursor is
  \<open>[selstart, selend)\<close>; \<open>answer\<close> is the text of the edit dialog, \<open>None\<close> when it is
  cancelled. The result is the exception raised (if any), the state and the warnings shown.
\<close>

definition restricted_edit_text ::
  "dialog_manage_files \<Rightarrow> int \<Rightarrow> int \<Rightarrow> string option
     \<Rightarrow> error option \<times> dialog_manage_files \<times> warning list" where
  "restricted_edit_text d selstart selend answer =
     (let txt = py_slice (fulltext (source_x d)) selstart selend
      in if length txt > 20 then (None, d, [Too_much_text_selected (length txt)])
         else case answer of
                None \<Rightarrow> (None, d, [])
              | Some new_text \<Rightarrow>
                 (let before = py_slice (fulltext (source_x d)) 0 selstart;
                      after = py_slice (fulltext (source_x d)) selend (int (length (fulltext (source_x d))));
                      d1 = d\<lparr>source_x := (source_x d)\<lparr>fulltext := before @ new_text @ after\<rparr>\<rparr>;
                      length_diff = int (length new_text) - int (length txt)
                  in if length_diff = 0 then (None, d1, [])
                     else case update_after_selection d1 selstart selend length_diff of
                            (Some e, d2) \<Rightarrow> (Some e, d2, [])
                          | (None, d2) \<Rightarrow> update_selected_section d2 selstart selend length_diff))"

subsection \<open>\<open>textEdit_restricted_menu\<close> (lines 623-663), menu action "Edit text maximum 20 characters"\<close>

text \<open>The other two actions of the menu (select all, copy) change neither text nor tables.\<close>

definition textEdit_restricted_menu ::
  "dialog_manage_files \<Rightarrow> int \<Rightarrow> int \<Rightarrow> string option
     \<Rightarrow> error option \<times> dialog_manage_files \<times> warning list" where
  "textEdit_restricted_menu d selstart selend answer =
     (if fulltext (source_x d) = '''' then (None, d, [])
      else let selected_text = py_slice (fulltext (source_x d)) selstart selend
      in if length selected_text > 0 \<and> length selected_text < 21
         then (case crossover_check d selstart selend of
                 (result, shown) \<Rightarrow>
                   if crossover result then (None, d, shown)
                   else restricted_edit_text d selstart selend answer)
         else (None, d, []))"

subsection \<open>Example states\<close>

definition case_link :: "int \<Rightarrow> int \<Rightarrow> int \<Rightarrow> int \<Rightarrow> int \<Rightarrow> case_row" where
  "case_link i c f p0 p1 =
     \<lparr>fid = f, pos0 = p0, pos1 = p1, owner = ''A'', date = ''2020-05-01 10:00:00'', memo = '''',
      ctid = i, caseid = c\<rparr>"

text \<open>File 1 with its text, coded spans, annotations and case links.\<close>

definition file_1 :: "string \<Rightarrow> code_row list \<Rightarrow> annotation_row list \<Rightarrow> case_row list \<Rightarrow> dialog_manage_files" where
  "file_1 txt codes notes links =
     \<lparr>code_text = codes, annotation = notes, case_text = links,
      source_x = \<lparr>sid = 1, name = ''interview.txt'', fulltext = txt\<rparr>\<rparr>"

definition alphabet :: string where
  "alphabet = ''abcdefghijklmnopqrstuvwxyz''"

section \<open>Automatic coding (code_text.py)\<close>

text \<open>
  \<open>try: cur.execute("insert into code_text ..."); except Exception: logger.debug(...)\<close>:
  an insert that violates the unique constraint is logged and the loop goes on.
\<close>

definition try_insert :: "code_row \<Rightarrow> code_row list \<Rightarrow> code_row list" where
  "try_insert r t = (case insert_code_text r t of Inl e \<Rightarrow> t | Inr t' \<Rightarrow> t')"

text \<open>
  \<open>[match.start() for match in re.finditer(re.escape(txt), text)]\<close> for a pattern that is
  not empty: the starts of the occurrences found from left to right, the search going on
  behind each occurrence (\<open>skip\<close> counts the characters of it still to pass).
\<close>

fun finditer :: "string \<Rightarrow> nat \<Rightarrow> nat \<Rightarrow> string \<Rightarrow> nat list" where
  "finditer txt pos skip [] = []"
| "finditer txt pos skip (c # cs) =
     (if skip > 0 then finditer txt (pos + 1) (skip - 1) cs
      else if prefix txt (c # cs) then pos # finditer txt (pos + 1) (length txt - 1) cs
      else finditer txt (pos + 1) 0 cs)"

text \<open>\<open>s.split(sep)\<close> for a separator that is not empty, and \<open>text in sentence\<close>.\<close>

fun split_loop :: "string \<Rightarrow> string \<Rightarrow> nat \<Rightarrow> string \<Rightarrow> string list" where
  "split_loop sep cur skip [] = [cur]"
| "split_loop sep cur skip (c # cs) =
     (if skip > 0 then split_loop sep cur (skip - 1) cs
      else if prefix sep (c # cs) then cur # split_loop sep [] (length sep - 1) cs
      else split_loop sep (cur @ [c]) 0 cs)"

definition py_split :: "string \<Rightarrow> string \<Rightarrow> string list" where
  "py_split s sep = split_loop sep [] 0 s"

fun py_in :: "string \<Rightarrow> string \<Rightarrow> bool" where
  "py_in txt [] = (txt = [])"
| "py_in txt (c # cs) = (prefix txt (c # cs) \<or> py_in txt cs)"

subsection \<open>\<open>auto_code\<close> (lines 1723-1798)\<close>

text \<open>
  The rows the loop over \<open>textStarts\<close> tries to insert for one text and one file, and for
  the whole run: for each text, for each file, in this order. One time stamp stands for
  the calls of \<open>datetime.now()\<close>.
\<close>

definition auto_code_items :: "int \<Rightarrow> string \<Rightarrow> string \<Rightarrow> string \<Rightarrow> source_row \<Rightarrow> code_row list" where
  "auto_code_items c who now txt f =
     map (\<lambda>startPos. \<lparr>fid = sid f, pos0 = int startPos, pos1 = int startPos + int (length txt),
                        owner = who, date = now, memo = '''', cid = c, seltext = txt\<rparr>)
       (finditer txt 0 0 (fulltext f))"

definition auto_code_attempts :: "int \<Rightarrow> string \<Rightarrow> string \<Rightarrow> string list \<Rightarrow> source_row list \<Rightarrow> code_row list" where
  "auto_code_attempts c who now texts files =
     concat (map (\<lambda>txt. concat (map (auto_code_items c who now txt) files)) texts)"

text \<open>
  The lines appended to the log window, one after each file: \<open>filenames\<close> collects the
  names of the files done so far for this text.
\<close>

fun file_messages :: "string \<Rightarrow> string \<Rightarrow> source_row list \<Rightarrow> string list" where
  "file_messages txt filenames [] = []"
| "file_messages txt filenames (f # fs) =
     (''Automatic coding in files: '' @ (filenames @ name f @ '' '') @ ''. with text: '' @ txt)
       # file_messages txt (filenames @ name f @ '' '') fs"

text \<open>
  \<open>auto_code item answer selected now\<close>: \<open>answer\<close> is the text typed into the input
  dialog (\<open>None\<close>: cancelled), \<open>selected\<close> the files chosen in the file dialog (\<open>None\<close>:
  cancelled, or no text file to offer). The texts are the parts of the answer between
  \<open>|\<close>, each once (Python's \<open>set\<close> fixes no order; here the order of \<open>remdups\<close>), without
  the empty ones. The result: the warning shown, the log lines, the state.
\<close>

definition auto_code ::
  "tree_item option \<Rightarrow> string option \<Rightarrow> source_row list option \<Rightarrow> string \<Rightarrow> dialog_code_text
     \<Rightarrow> message option \<times> string list \<times> dialog_code_text" where
  "auto_code item answer selected now d =
     (case item of
        None \<Rightarrow> (Some No_code_was_selected, [], d)
      | Some (Category_item c) \<Rightarrow> (None, [], d)
      | Some (Code_item c) \<Rightarrow>
         (case answer of
            None \<Rightarrow> (None, [], d)
          | Some find_text \<Rightarrow>
             (if find_text = '''' then (None, [], d)
              else let texts = filter (\<lambda>t. t \<noteq> '''') (remdups (py_split find_text ''|''))
              in case selected of
                   None \<Rightarrow> (None, [], d)
                 | Some files \<Rightarrow>
                    (if length files = 0 then (None, [], d)
                     else (None,
                           concat (map (\<lambda>txt. file_messages txt '''' files) texts),
                           get_coded_text_update_eventfilter_tooltips
                             (d\<lparr>code_text :=
                                  fold try_insert (auto_code_attempts c (codername d) now texts files)
                                    (code_text d)\<rparr>))))))"

subsection \<open>\<open>code_sentences\<close> (lines 1638-1721)\<close>

text \<open>
  The rows the loop over the sentences of one file tries to insert: \<open>pos0\<close> runs on by the
  length of each sentence and of the ending. \<open>codes_added\<close> is raised before each insert
  statement, so it is the number of these rows.
\<close>

fun sentence_items ::
  "int \<Rightarrow> string \<Rightarrow> string \<Rightarrow> string \<Rightarrow> string \<Rightarrow> int \<Rightarrow> int \<Rightarrow> string list \<Rightarrow> code_row list" where
  "sentence_items c who now text ending f p [] = []"
| "sentence_items c who now text ending f p (sentence # rest) =
     (if py_in text sentence
      then [\<lparr>fid = f, pos0 = p, pos1 = p + int (length sentence), owner = who, date = now,
             memo = '''', cid = c, seltext = sentence\<rparr>]
      else [])
     @ sentence_items c who now text ending f (p + int (length sentence) + int (length ending)) rest"

definition file_sentence_items :: "int \<Rightarrow> string \<Rightarrow> string \<Rightarrow> string \<Rightarrow> string \<Rightarrow> source_row \<Rightarrow> code_row list" where
  "file_sentence_items c who now text ending f =
     sentence_items c who now text ending (sid f) 0 (py_split (fulltext f) ending)"

definition code_sentences_attempts ::
  "int \<Rightarrow> string \<Rightarrow> string \<Rightarrow> string \<Rightarrow> string \<Rightarrow> source_row list \<Rightarrow> code_row list" where
  "code_sentences_attempts c who now text ending files =
     concat (map (file_sentence_items c who now text ending) files)"

text \<open>
  \<open>code_sentences item answer answer2 files now\<close>: \<open>answer\<close> is the text fragment and
  \<open>answer2\<close> the sentence ending typed into the two input dialogs, \<open>files\<close> what
  \<open>get_file_texts\<close> returns (all text files, or the open one). The log gets one line
  "File: name n added codes" for each file with \<open>codes_added > 0\<close>, here the pair of
  name and number.
\<close>

definition code_sentences ::
  "tree_item option \<Rightarrow> string option \<Rightarrow> string option \<Rightarrow> source_row list \<Rightarrow> string \<Rightarrow> dialog_code_text
     \<Rightarrow> message option \<times> (string \<times> nat) list \<times> dialog_code_text" where
  "code_sentences item answer answer2 files now d =
     (case item of
        None \<Rightarrow> (Some No_code_was_selected, [], d)
      | Some (Category_item c) \<Rightarrow> (None, [], d)
      | Some (Code_item c) \<Rightarrow>
         (case answer of
            None \<Rightarrow> (None, [], d)
          | Some text \<Rightarrow>
             (if text = '''' then (None, [], d)
              else case answer2 of
                     None \<Rightarrow> (None, [], d)
                   | Some ending \<Rightarrow>
                      (if ending = '''' then (None, [], d)
                       else (None,
                             map (\<lambda>f. (name f, length (file_sentence_items c (codername d) now text ending f)))
                               (filter (\<lambda>f. length (file_sentence_items c (codername d) now text ending f) > 0)
                                  files),
                             get_coded_text_update_eventfilter_tooltips
                               (d\<lparr>code_text :=
                                    fold try_insert
                                      (code_sentences_attempts c (codername d) now text ending files)
                                      (code_text d)\<rparr>))))))"

definition text_file :: "string \<Rightarrow> source_row" where
  "text_file txt = \<lparr>sid = 1, name = ''interview.txt'', fulltext = txt\<rparr>"

section \<open>Verification\<close>

subsection \<open>Resizing a coded span\<close>


lemma update_code_text_Inr: "update_code_text P f rows = Inr t \<Longrightarrow> t = sql_update P f rows"
  by (simp add: update_code_text_def Let_def split: if_splits)

lemma in_sql_update: "r \<in> set (sql_update P f rows) \<Longrightarrow> r \<in> set rows \<or> (\<exists>r0 \<in> set rows. P r0 \<and> r = f r0)"
  by (auto simp: sql_update_def split: if_splits)

lemma reload_code_text [simp]: "code_text (get_coded_text_update_eventfilter_tooltips d) = code_text d"
  by (simp add: get_coded_text_update_eventfilter_tooltips_def split: option.splits)

lemma reload_self_code_text:
  "r \<in> set (self_code_text (get_coded_text_update_eventfilter_tooltips d)) \<Longrightarrow>
     r \<in> set (self_code_text d) \<or> r \<in> set (code_text d)"
  by (auto simp: get_coded_text_update_eventfilter_tooltips_def split: option.splits)

lemma resize_row_rows:
  assumes "r \<in> set (code_text (snd (resize_row k c' P f d))) \<union> set (self_code_text (snd (resize_row k c' P f d)))"
  shows "r \<in> set (code_text d) \<union> set (self_code_text d) \<or> r = c' \<or> (\<exists>r0 \<in> set (code_text d). P r0 \<and> r = f r0)"
proof (cases "update_code_text P f (code_text d)")
  case (Inl e)
  then have "snd (resize_row k c' P f d) = d\<lparr>self_code_text := (self_code_text d)[k := c']\<rparr>"
    by (simp add: resize_row_def)
  with assms show ?thesis
    by (auto dest: set_update_subset_insert [THEN subsetD])
next
  case (Inr t)
  then have s: "snd (resize_row k c' P f d) =
      get_coded_text_update_eventfilter_tooltips (d\<lparr>self_code_text := (self_code_text d)[k := c'], code_text := t\<rparr>)"
    by (simp add: resize_row_def)
  have t: "t = sql_update P f (code_text d)" using Inr by (rule update_code_text_Inr)
  from assms s have "r \<in> set t \<or> r \<in> set ((self_code_text d)[k := c'])"
    by (auto dest: reload_self_code_text)
  then show ?thesis using t
    by (auto dest: in_sql_update set_update_subset_insert [THEN subsetD])
qed

lemma extend_right_rows:
  assumes "r \<in> set (code_text (snd (extend_right k d))) \<union> set (self_code_text (snd (extend_right k d)))"
  shows "r \<in> set (code_text d) \<union> set (self_code_text d) \<or> pos1 r \<le> int (length (plain_text d)) - 1"
proof (cases "pos1 (self_code_text d ! k) + 1 \<ge> int (length (plain_text d))")
  case True
  then show ?thesis using assms by (simp add: extend_right_def)
next
  case False
  define c where "c = self_code_text d ! k"
  define c' where "c' = c\<lparr>pos1 := pos1 c + 1\<rparr>"
  define P where "P = (\<lambda>r::code_row. cid r = cid c' \<and> fid r = fid c' \<and> pos0 r = pos0 c'
                        \<and> pos1 r = pos1 c' - 1 \<and> owner r = codername d)"
  define f where "f = (\<lambda>r::code_row. r\<lparr>pos1 := pos1 c'\<rparr>)"
  have e: "extend_right k d = resize_row k c' P f d"
    using False by (simp add: extend_right_def Let_def c_def c'_def P_def f_def)
  have b: "pos1 c' \<le> int (length (plain_text d)) - 1"
    using False by (simp add: c'_def c_def)
  from assms [unfolded e] have
    "r \<in> set (code_text d) \<union> set (self_code_text d) \<or> r = c' \<or> (\<exists>r0 \<in> set (code_text d). P r0 \<and> r = f r0)"
    by (rule resize_row_rows)
  then show ?thesis using b by (auto simp: f_def)
qed

lemma extend_left_rows:
  assumes "r \<in> set (code_text (snd (extend_left k d))) \<union> set (self_code_text (snd (extend_left k d)))"
  shows "r \<in> set (code_text d) \<union> set (self_code_text d) \<or> 0 \<le> pos0 r"
proof (cases "pos0 (self_code_text d ! k) < 1")
  case True
  then show ?thesis using assms by (simp add: extend_left_def)
next
  case False
  define c where "c = self_code_text d ! k"
  define c' where "c' = c\<lparr>pos0 := pos0 c - 1\<rparr>"
  define P where "P = (\<lambda>r::code_row. cid r = cid c' \<and> fid r = fid c' \<and> pos0 r = pos0 c' + 1
                        \<and> pos1 r = pos1 c' \<and> owner r = codername d)"
  define f where "f = (\<lambda>r::code_row. r\<lparr>pos0 := pos0 c'\<rparr>)"
  have e: "extend_left k d = resize_row k c' P f d"
    using False by (simp add: extend_left_def Let_def c_def c'_def P_def f_def)
  have b: "0 \<le> pos0 c'"
    using False by (simp add: c'_def c_def)
  from assms [unfolded e] have
    "r \<in> set (code_text d) \<union> set (self_code_text d) \<or> r = c' \<or> (\<exists>r0 \<in> set (code_text d). P r0 \<and> r = f r0)"
    by (rule resize_row_rows)
  then show ?thesis using b by (auto simp: f_def)
qed

lemma valid_spansI:
  "(\<And>r. r \<in> set (code_text d) \<union> set (self_code_text d) \<Longrightarrow> pos0 r < pos1 r) \<Longrightarrow> valid_spans d"
  by (simp add: valid_spans_def list_all_iff)

lemma valid_spansD:
  "valid_spans d \<Longrightarrow> r \<in> set (code_text d) \<union> set (self_code_text d) \<Longrightarrow> pos0 r < pos1 r"
  by (auto simp: valid_spans_def list_all_iff)

lemma resize_row_valid:
  assumes v: "valid_spans d" and c: "pos0 c' < pos1 c'"
    and f: "\<And>r0. r0 \<in> set (code_text d) \<Longrightarrow> P r0 \<Longrightarrow> pos0 (f r0) < pos1 (f r0)"
  shows "valid_spans (snd (resize_row k c' P f d))"
proof (rule valid_spansI)
  fix r
  assume "r \<in> set (code_text (snd (resize_row k c' P f d))) \<union> set (self_code_text (snd (resize_row k c' P f d)))"
  then have "r \<in> set (code_text d) \<union> set (self_code_text d) \<or> r = c' \<or> (\<exists>r0 \<in> set (code_text d). P r0 \<and> r = f r0)"
    by (rule resize_row_rows)
  then show "pos0 r < pos1 r"
    using valid_spansD [OF v] c f by blast
qed

lemma extend_left_valid:
  assumes v: "valid_spans d" and k: "k < length (self_code_text d)"
  shows "valid_spans (snd (extend_left k d))"
proof -
  have "pos0 (self_code_text d ! k) < pos1 (self_code_text d ! k)"
    using valid_spansD [OF v] k by simp
  then show ?thesis
    unfolding extend_left_def Let_def using v
    by (auto intro!: resize_row_valid)
qed

lemma extend_right_valid:
  assumes v: "valid_spans d" and k: "k < length (self_code_text d)"
  shows "valid_spans (snd (extend_right k d))"
proof -
  have "pos0 (self_code_text d ! k) < pos1 (self_code_text d ! k)"
    using valid_spansD [OF v] k by simp
  then show ?thesis
    unfolding extend_right_def Let_def using v
    by (auto intro!: resize_row_valid)
qed

lemma shrink_to_left_valid:
  assumes v: "valid_spans d"
  shows "valid_spans (snd (shrink_to_left k d))"
  unfolding shrink_to_left_def Let_def using v
  by (auto intro!: resize_row_valid)

lemma shrink_to_right_valid:
  assumes v: "valid_spans d"
  shows "valid_spans (snd (shrink_to_right k d))"
  unfolding shrink_to_right_def Let_def using v
  by (auto intro!: resize_row_valid)

lemma apply_change_valid:
  assumes v: "valid_spans d"
    and n: "pos0 (self_code_text d ! k) + cs < pos1 (self_code_text d ! k) + ce"
  shows "valid_spans (snd (apply_change k cs ce d))"
proof (rule valid_spansI)
  fix r
  assume a: "r \<in> set (code_text (snd (apply_change k cs ce d))) \<union> set (self_code_text (snd (apply_change k cs ce d)))"
  show "pos0 r < pos1 r"
  proof (cases "cs = 0 \<and> ce = 0")
    case True
    then show ?thesis using a valid_spansD [OF v] by (simp add: apply_change_def)
  next
    case False
    define c where "c = self_code_text d ! k"
    define P where "P = (\<lambda>r::code_row. cid r = cid c \<and> fid r = fid c \<and> pos0 r = pos0 c \<and> pos1 r = pos1 c
                     \<and> owner r = codername d)"
    define f where "f = (\<lambda>r::code_row. r\<lparr>pos0 := pos0 c + cs, pos1 := pos1 c + ce\<rparr>)"
    show ?thesis
    proof (cases "update_code_text P f (code_text d)")
      case (Inl e)
      then have "snd (apply_change k cs ce d) = d"
        using False by (auto simp add: apply_change_def Let_def c_def P_def f_def)
      then show ?thesis using a valid_spansD [OF v] by simp
    next
      case (Inr t)
      then have s: "snd (apply_change k cs ce d) = get_coded_text_update_eventfilter_tooltips (d\<lparr>code_text := t\<rparr>)"
        using False by (auto simp add: apply_change_def Let_def c_def P_def f_def)
      have t: "t = sql_update P f (code_text d)" using Inr by (rule update_code_text_Inr)
      from a s have "r \<in> set t \<or> r \<in> set (self_code_text d)"
        by (auto dest: reload_self_code_text)
      then have "r \<in> set (code_text d) \<union> set (self_code_text d) \<or> (\<exists>r0 \<in> set (code_text d). P r0 \<and> r = f r0)"
        using t by (auto dest: in_sql_update)
      then show ?thesis using valid_spansD [OF v] n by (auto simp: f_def c_def)
    qed
  qed
qed

lemma change_code_pos_valid:
  assumes v: "valid_spans d"
    and q: "\<And>k v. code_to_edit location choice d = Some k \<Longrightarrow> entered = Some v \<Longrightarrow>
              within (if start_or_end = ''start'' then start_range (self_code_text d ! k)
                      else end_range (length (plain_text d)) (self_code_text d ! k)) v"
  shows "valid_spans (snd (change_code_pos location start_or_end choice entered d))"
proof (cases "filename d = None \<or> code_to_edit location choice d = None \<or> entered = None")
  case True
  then show ?thesis using v
    by (auto simp: change_code_pos_def apply_change_def split: option.splits)
next
  case False
  then obtain k w where k: "code_to_edit location choice d = Some k" and w: "entered = Some w"
    and f: "filename d \<noteq> None" by auto
  note r = q [OF k w]
  show ?thesis
  proof (cases "start_or_end = ''start''")
    case True
    then have "pos0 (self_code_text d ! k) + w < pos1 (self_code_text d ! k) + 0"
      using r by (simp add: within_def start_range_def)
    then have "valid_spans (snd (apply_change k w 0 d))" by (rule apply_change_valid [OF v])
    then show ?thesis using True k w f by (auto simp add: change_code_pos_def)
  next
    case False
    show ?thesis
    proof (cases "start_or_end = ''end''")
      case True
      then have "pos0 (self_code_text d ! k) + 0 < pos1 (self_code_text d ! k) + w"
        using r by (simp add: within_def end_range_def)
      then have "valid_spans (snd (apply_change k 0 w d))" by (rule apply_change_valid [OF v])
      then show ?thesis using True k w f by (auto simp add: change_code_pos_def)
    next
      case False
      then show ?thesis using \<open>start_or_end \<noteq> ''start''\<close> k w f v
        by (simp add: change_code_pos_def apply_change_def)
    qed
  qed
qed

lemma shrink_noop:
  "pos1 (self_code_text d ! k) \<le> pos0 (self_code_text d ! k) + 1 \<Longrightarrow>
     shrink_to_left k d = (None, d) \<and> shrink_to_right k d = (None, d)"
  by (simp add: shrink_to_left_def shrink_to_right_def)

lemma span_5_10_to_5_6:
  "change_code_pos 7 ''end'' None (Some (-4)) (coding_dialog [code_span 1 1 ''A'' 5 10 ''at sa''] cat_text)
     = (None, coding_dialog [code_span 1 1 ''A'' 5 6 ''at sa''] cat_text)"
  by (simp add: change_code_pos_def code_to_edit_def codes_at_def apply_change_def coding_dialog_def
      code_span_def update_code_text_def sql_update_def unique_code_text_def code_key_def
      get_coded_text_update_eventfilter_tooltips_def Let_def)

lemma span_5_6_stays:
  "shrink_to_left 0 (coding_dialog [code_span 1 1 ''A'' 5 6 ''at sa''] cat_text)
     = (None, coding_dialog [code_span 1 1 ''A'' 5 6 ''at sa''] cat_text)
   \<and> shrink_to_right 0 (coding_dialog [code_span 1 1 ''A'' 5 6 ''at sa''] cat_text)
     = (None, coding_dialog [code_span 1 1 ''A'' 5 6 ''at sa''] cat_text)"
  by (simp add: shrink_to_left_def shrink_to_right_def coding_dialog_def code_span_def Let_def)

lemma change_end_range_5_10:
  "end_range (length cat_text) (code_span 1 1 ''A'' 5 10 ''at sa'') = (-4, 15)"
  by (simp add: end_range_def cat_text_def code_span_def)

text \<open>
  Claim C10. Extending to the right does nothing when \<open>end + 1 >= len(text)\<close>, and every
  row that \<open>extend_right\<close> produces (in the table or in the dialog's copy) ends at or before
  \<open>len(text) - 1\<close>, so no extension produces \<open>end = len(text)\<close>. Extending to the left does
  nothing when \<open>start = 0\<close>, and every row that \<open>extend_left\<close> produces starts at or after 0.
\<close>

theorem extend_stays_inside_text:
  assumes "k < length (self_code_text d)"
  shows "(pos1 (self_code_text d ! k) + 1 \<ge> int (length (plain_text d)) \<longrightarrow> extend_right k d = (None, d))
       \<and> (\<forall>r \<in> set (code_text (snd (extend_right k d))) \<union> set (self_code_text (snd (extend_right k d))).
             r \<in> set (code_text d) \<union> set (self_code_text d) \<or> pos1 r \<le> int (length (plain_text d)) - 1)
       \<and> (pos0 (self_code_text d ! k) = 0 \<longrightarrow> extend_left k d = (None, d))
       \<and> (\<forall>r \<in> set (code_text (snd (extend_left k d))) \<union> set (self_code_text (snd (extend_left k d))).
             r \<in> set (code_text d) \<union> set (self_code_text d) \<or> 0 \<le> pos0 r)"
proof -
  have 1: "pos1 (self_code_text d ! k) + 1 \<ge> int (length (plain_text d)) \<longrightarrow> extend_right k d = (None, d)"
    by (simp add: extend_right_def)
  have 3: "pos0 (self_code_text d ! k) = 0 \<longrightarrow> extend_left k d = (None, d)"
    by (simp add: extend_left_def)
  show ?thesis using 1 3 extend_right_rows [of _ k d] extend_left_rows [of _ k d] by blast
qed

text \<open>
  At a span covering \<open>[0, 24)\<close> of the 25 characters of \<open>cat_text\<close> both extensions do
  nothing; a span \<open>[5, 10)\<close> is extended to \<open>[5, 11)\<close> and \<open>[4, 10)\<close>.
\<close>

theorem extend_stays_inside_text_witness:
  "0 < length (self_code_text (coding_dialog [code_span 1 1 ''A'' 0 24 ''The cat sat. The dog ran''] cat_text))
   \<and> extend_right 0 (coding_dialog [code_span 1 1 ''A'' 0 24 ''The cat sat. The dog ran''] cat_text)
       = (None, coding_dialog [code_span 1 1 ''A'' 0 24 ''The cat sat. The dog ran''] cat_text)
   \<and> extend_left 0 (coding_dialog [code_span 1 1 ''A'' 0 24 ''The cat sat. The dog ran''] cat_text)
       = (None, coding_dialog [code_span 1 1 ''A'' 0 24 ''The cat sat. The dog ran''] cat_text)"
  using extend_stays_inside_text
          [of 0 "coding_dialog [code_span 1 1 ''A'' 0 24 ''The cat sat. The dog ran''] cat_text"]
  by (simp add: coding_dialog_def code_span_def cat_text_def)

text \<open>
  Claim C8. Each of the five resize operations keeps \<open>start < end\<close> on every row of the
  table and of the dialog's copy (for \<open>change_code_pos\<close>: with the number entered inside
  the bounds the input dialog is given). A shrink of a span one character long does
  nothing. The span \<open>[5, 10)\<close> is changed to \<open>[5, 6)\<close> by moving its end by -4, the lowest
  number the dialog accepts, so \<open>[5, 5)\<close> cannot be entered; shrinking \<open>[5, 6)\<close> further
  leaves the state unchanged.
\<close>

theorem resize_keeps_one_character:
  assumes "valid_spans d" and "k < length (self_code_text d)"
    and "\<And>j v. code_to_edit location choice d = Some j \<Longrightarrow> entered = Some v \<Longrightarrow>
              within (if start_or_end = ''start'' then start_range (self_code_text d ! j)
                      else end_range (length (plain_text d)) (self_code_text d ! j)) v"
  shows "valid_spans (snd (extend_left k d)) \<and> valid_spans (snd (extend_right k d))
       \<and> valid_spans (snd (shrink_to_left k d)) \<and> valid_spans (snd (shrink_to_right k d))
       \<and> valid_spans (snd (change_code_pos location start_or_end choice entered d))
       \<and> (pos1 (self_code_text d ! k) \<le> pos0 (self_code_text d ! k) + 1 \<longrightarrow>
            shrink_to_left k d = (None, d) \<and> shrink_to_right k d = (None, d))
       \<and> end_range (length cat_text) (code_span 1 1 ''A'' 5 10 ''at sa'') = (-4, 15)
       \<and> change_code_pos 7 ''end'' None (Some (-4)) (coding_dialog [code_span 1 1 ''A'' 5 10 ''at sa''] cat_text)
            = (None, coding_dialog [code_span 1 1 ''A'' 5 6 ''at sa''] cat_text)
       \<and> shrink_to_left 0 (coding_dialog [code_span 1 1 ''A'' 5 6 ''at sa''] cat_text)
            = (None, coding_dialog [code_span 1 1 ''A'' 5 6 ''at sa''] cat_text)
       \<and> shrink_to_right 0 (coding_dialog [code_span 1 1 ''A'' 5 6 ''at sa''] cat_text)
            = (None, coding_dialog [code_span 1 1 ''A'' 5 6 ''at sa''] cat_text)"
proof -
  have "valid_spans (snd (change_code_pos location start_or_end choice entered d))"
    using assms(1) assms(3) by (rule change_code_pos_valid)
  then show ?thesis
    using extend_left_valid [OF assms(1,2)] extend_right_valid [OF assms(1,2)]
      shrink_to_left_valid [OF assms(1), of k] shrink_to_right_valid [OF assms(1), of k]
      shrink_noop [of d k] change_end_range_5_10 span_5_10_to_5_6 span_5_6_stays
    by blast
qed

theorem resize_keeps_one_character_witness:
  "valid_spans (coding_dialog [code_span 1 1 ''A'' 5 10 ''at sa''] cat_text)
   \<and> code_to_edit 7 None (coding_dialog [code_span 1 1 ''A'' 5 10 ''at sa''] cat_text) = Some 0
   \<and> within (end_range (length cat_text) (code_span 1 1 ''A'' 5 10 ''at sa'')) (-4)
   \<and> valid_spans (snd (change_code_pos 7 ''end'' None (Some (-4))
        (coding_dialog [code_span 1 1 ''A'' 5 10 ''at sa''] cat_text)))
   \<and> snd (shrink_to_left 0 (coding_dialog [code_span 1 1 ''A'' 5 10 ''at sa''] cat_text))
       = coding_dialog [code_span 1 1 ''A'' 5 9 ''at sa''] cat_text"
proof -
  let ?d = "coding_dialog [code_span 1 1 ''A'' 5 10 ''at sa''] cat_text"
  have v: "valid_spans ?d"
    by (simp add: valid_spans_def coding_dialog_def code_span_def)
  have k: "0 < length (self_code_text ?d)"
    by (simp add: coding_dialog_def)
  have c: "code_to_edit 7 None ?d = Some 0"
    by (simp add: code_to_edit_def codes_at_def coding_dialog_def code_span_def)
  have w: "within (end_range (length cat_text) (code_span 1 1 ''A'' 5 10 ''at sa'')) (-4)"
    by (simp add: within_def end_range_def code_span_def cat_text_def)
  have q: "\<And>j v. code_to_edit 7 None ?d = Some j \<Longrightarrow> Some (-4) = Some v \<Longrightarrow>
              within (if ''end'' = ''start'' then start_range (self_code_text ?d ! j)
                      else end_range (length (plain_text ?d)) (self_code_text ?d ! j)) v"
    using w by (simp add: c) (simp add: coding_dialog_def)
  have s: "snd (shrink_to_left 0 ?d) = coding_dialog [code_span 1 1 ''A'' 5 9 ''at sa''] cat_text"
    by (simp add: shrink_to_left_def resize_row_def coding_dialog_def code_span_def Let_def
        update_code_text_def sql_update_def unique_code_text_def code_key_def
        get_coded_text_update_eventfilter_tooltips_def)
  have r: "valid_spans (snd (change_code_pos 7 ''end'' None (Some (-4)) ?d))"
    using resize_keeps_one_character
            [where d = ?d and k = 0 and location = 7 and choice = None and entered = "Some (-4)"
               and start_or_end = "''end''", OF v k q]
    by blast
  show ?thesis
    using r v c w s by blast
qed

subsection \<open>Overlapping coded spans\<close>

text \<open>
  Claim C1, as amended. For two distinct items \<open>i\<close>, \<open>j\<close> whose ranges intersect, the two
  iterations of the nested loop for the pair append together: the range
  \<open>(max start, min end)\<close> twice when both start at the same offset; that range once when
  the item starting later ends inside the other; and otherwise the same two offsets in
  reverse order, \<open>(min end, max start)\<close>, once.
\<close>

theorem overlap_pair_report:
  assumes "i \<noteq> j" and "pos0 i < pos1 j" and "pos0 j < pos1 i"
  shows "overlap_of i j @ overlap_of j i =
     (let lo = max (pos0 i) (pos0 j); hi = min (pos1 i) (pos1 j)
      in if pos0 i = pos0 j then [(lo, hi), (lo, hi)]
         else if (pos0 j < pos0 i \<and> pos1 i \<le> pos1 j) \<or> (pos0 i < pos0 j \<and> pos1 j \<le> pos1 i)
              then [(lo, hi)]
              else [(hi, lo)])"
proof -
  have n: "j \<noteq> i" using assms(1) by simp
  consider "pos0 i = pos0 j" | "pos0 j < pos0 i" | "pos0 i < pos0 j" by linarith
  then show ?thesis
  proof cases
    case 1
    then show ?thesis using assms n by (auto simp: overlap_of_def Let_def max_def min_def)
  next
    case 2
    then show ?thesis using assms n by (auto simp: overlap_of_def Let_def max_def min_def)
  next
    case 3
    then show ?thesis using assms n by (auto simp: overlap_of_def Let_def max_def min_def)
  qed
qed

text \<open>
  For \<open>a = [0, 10)\<close> and \<open>b = [5, 15)\<close> the pair's one entry is \<open>(10, 5)\<close>.
\<close>

theorem overlap_pair_report_witness:
  "code_span 1 1 ''A'' 0 10 ''0123456789'' \<noteq> code_span 2 1 ''A'' 5 15 ''56789abcde''
   \<and> overlap_of (code_span 1 1 ''A'' 0 10 ''0123456789'') (code_span 2 1 ''A'' 5 15 ''56789abcde'')
     @ overlap_of (code_span 2 1 ''A'' 5 15 ''56789abcde'') (code_span 1 1 ''A'' 0 10 ''0123456789'')
     = [(10, 5)]"
proof -
  let ?a = "code_span 1 1 ''A'' 0 10 ''0123456789''"
  let ?b = "code_span 2 1 ''A'' 5 15 ''56789abcde''"
  have 1: "?a \<noteq> ?b" by (simp add: code_span_def)
  have 2: "pos0 ?a < pos1 ?b" by (simp add: code_span_def)
  have 3: "pos0 ?b < pos1 ?a" by (simp add: code_span_def)
  show ?thesis
    using overlap_pair_report [OF 1 2 3] 1 by (simp add: code_span_def)
qed

text \<open>
  Claim C1 as stated fails: for \<open>a = [0, 10)\<close>, \<open>b = [5, 15)\<close> the list holds \<open>(10, 5)\<close>,
  not \<open>(5, 10)\<close>; for \<open>[0, 10)\<close> and \<open>[0, 5)\<close> it holds two entries for the one pair.
\<close>

theorem overlap_counterexample:
  "apply_overline_to_overlaps
     [code_span 1 1 ''A'' 0 10 ''0123456789'', code_span 2 1 ''A'' 5 15 ''56789abcde''] = [(10, 5)]
   \<and> apply_overline_to_overlaps
     [code_span 1 1 ''A'' 0 10 ''0123456789'', code_span 2 1 ''A'' 0 5 ''01234''] = [(0, 5), (0, 5)]"
  by (simp add: apply_overline_to_overlaps_def overlap_of_def code_span_def)

subsection \<open>Marking and unmarking\<close>

lemma unique_key_count:
  "distinct (map g xs) \<Longrightarrow> x \<in> set xs \<Longrightarrow> length (filter (\<lambda>y. g y = g x) xs) = 1"
proof (induction xs)
  case Nil
  then show ?case by simp
next
  case (Cons a xs)
  show ?case
  proof (cases "a = x")
    case True
    have "g x \<notin> g ` set xs" using Cons.prems(1) True by simp
    then have "\<And>y. y \<in> set xs \<Longrightarrow> g y \<noteq> g x" by (metis imageI)
    then have "filter (\<lambda>y. g y = g x) xs = []"
      by (simp add: filter_empty_conv)
    then show ?thesis using True by simp
  next
    case False
    then have "x \<in> set xs" using Cons.prems(2) by simp
    moreover have "g a \<noteq> g x" using Cons.prems(1) \<open>x \<in> set xs\<close> by auto
    ultimately show ?thesis using Cons by simp
  qed
qed

text \<open>
  Claim C5. When the table holds a row with the key \<open>(cid, fid, pos0, pos1, owner)\<close> of the
  selection being marked, \<open>mark\<close> shows the warning "Already Coded" and leaves the table
  and the dialog's copy unchanged, so the table still holds exactly one row with that key.
\<close>

theorem mark_duplicate_is_reported:
  assumes "filename d = Some f" and "p0 < p1" and "unique_code_text (code_text d)"
    and "r \<in> set (code_text d)" and "code_key r = (c, f, p0, p1, codername d)"
  shows "mark (Some (Code_item c)) txt p0 p1 now d = (Some (Already_Coded (codername d)), d)
       \<and> length (filter (\<lambda>x. code_key x = (c, f, p0, p1, codername d))
                   (code_text (snd (mark (Some (Code_item c)) txt p0 p1 now d)))) = 1"
proof -
  have "r \<in> set (filter (\<lambda>r. cid r = c \<and> fid r = f \<and> pos0 r = p0 \<and> pos1 r = p1 \<and> owner r = codername d)
                 (code_text d))"
    using assms(4,5) by (simp add: code_key_def)
  then have "length (filter (\<lambda>r. cid r = c \<and> fid r = f \<and> pos0 r = p0 \<and> pos1 r = p1 \<and> owner r = codername d)
                 (code_text d)) > 0"
    by (rule length_pos_if_in_set)
  then have m: "mark (Some (Code_item c)) txt p0 p1 now d = (Some (Already_Coded (codername d)), d)"
    using assms(1,2) by (simp add: mark_def Let_def)
  have "length (filter (\<lambda>x. code_key x = code_key r) (code_text d)) = 1"
    using assms(3,4) unfolding unique_code_text_def by (rule unique_key_count)
  then show ?thesis using m assms(5) by simp
qed

theorem mark_duplicate_is_reported_witness:
  "filename (coding_dialog [code_span 1 1 ''A'' 4 7 ''cat''] cat_text) = Some 1
   \<and> unique_code_text (code_text (coding_dialog [code_span 1 1 ''A'' 4 7 ''cat''] cat_text))
   \<and> code_key (code_span 1 1 ''A'' 4 7 ''cat'') = (1, 1, 4, 7, ''A'')
   \<and> mark (Some (Code_item 1)) ''cat'' 4 7 ''2020-06-01 09:00:00''
        (coding_dialog [code_span 1 1 ''A'' 4 7 ''cat''] cat_text)
      = (Some (Already_Coded ''A''), coding_dialog [code_span 1 1 ''A'' 4 7 ''cat''] cat_text)"
proof -
  let ?d = "coding_dialog [code_span 1 1 ''A'' 4 7 ''cat''] cat_text"
  have 1: "filename ?d = Some 1" by (simp add: coding_dialog_def)
  have 2: "(4::int) < 7" by simp
  have 3: "unique_code_text (code_text ?d)" by (simp add: coding_dialog_def unique_code_text_def)
  have 4: "code_span 1 1 ''A'' 4 7 ''cat'' \<in> set (code_text ?d)" by (simp add: coding_dialog_def)
  have 5: "code_key (code_span 1 1 ''A'' 4 7 ''cat'') = (1, 1, 4, 7, codername ?d)"
    by (simp add: coding_dialog_def code_key_def code_span_def)
  have c: "codername ?d = ''A''" by (simp add: coding_dialog_def)
  show ?thesis
    using mark_duplicate_is_reported [OF 1 2 3 4 5, of "''cat''" "''2020-06-01 09:00:00''"] 1 3 5 c
    by simp
qed

text \<open>
  Marking a range not yet coded appends the new row.
\<close>

lemma mark_new_span:
  "mark (Some (Code_item 1)) ''sat'' 8 11 ''2020-06-01 09:00:00''
        (coding_dialog [code_span 1 1 ''A'' 4 7 ''cat''] cat_text)
   = (None, coding_dialog [code_span 1 1 ''A'' 4 7 ''cat'',
        \<lparr>fid = 1, pos0 = 8, pos1 = 11, owner = ''A'', date = ''2020-06-01 09:00:00'', memo = '''',
         cid = 1, seltext = ''sat''\<rparr>] cat_text)"
  by (simp add: mark_def coding_dialog_def code_span_def insert_code_text_def code_key_def Let_def)

text \<open>
  Claim C9 fails on the code. Deleting an annotation (an empty memo) runs
  \<open>delete from annotation where pos0 = ?\<close>: coder A, clearing the memo of the annotation
  \<open>[5, 10)\<close> of file 1 (with no selection, or with the selection \<open>[6, 8)\<close>), also deletes
  coder B's annotation \<open>[5, 9)\<close> of file 2.
\<close>

theorem annotate_deletes_other_owners_rows:
  "note_row 2 2 ''B'' 5 9 ''theirs'' \<in> set (annotation two_coders)
   \<and> annotation (snd (annotate 7 7 7 '''' ''2020-06-01 09:00:00'' two_coders)) = []
   \<and> annotation (snd (annotate 7 6 8 '''' ''2020-06-01 09:00:00'' two_coders)) = []"
  by (simp add: annotate_def note_at_def two_coders_def note_row_def cat_text_def sql_delete_def Let_def)

text \<open>
  \<open>unmark\<close> removes only rows of the current coder in the file of the chosen item, and
  leaves the other tables alone.
\<close>

lemma unmark_removes_only_own:
  assumes "r \<in> set (code_text d)" and "r \<notin> set (code_text (unmark location choice d))"
  shows "owner r = codername d \<and> (\<exists>k. to_unmark location choice d = Some k \<and> fid r = fid (self_code_text d ! k))"
  using assms
  by (auto simp: unmark_def sql_delete_def get_coded_text_update_eventfilter_tooltips_def Let_def
      split: option.splits if_splits)

lemma unmark_other_tables:
  "annotation (unmark location choice d) = annotation d \<and> case_text (unmark location choice d) = case_text d"
  by (auto simp: unmark_def get_coded_text_update_eventfilter_tooltips_def Let_def split: option.splits)

subsection \<open>Editing the text of a coded file\<close>

lemmas edit_defs =
  textEdit_restricted_menu_def restricted_edit_text_def update_selected_section_def
  update_after_selection_def crossover_check_def crossing_def containing_def post_linked_def
  shift_code_text_def grow_code_text_def update_code_text_def unique_code_text_def code_key_def
  sql_update_def py_slice_def py_index_def file_1_def code_span_def case_link_def note_row_def Let_def
  index_order_def

lemma index_order_Nil [simp]: "index_order [] = []"
  by (simp add: index_order_def)

lemma index_order_eq_Nil [simp]: "index_order rows = [] \<longleftrightarrow> rows = []"
  by (metis index_order_def length_0_conv length_sort)

lemma set_index_order [simp]: "set (index_order rows) = set rows"
  by (simp add: index_order_def)

lemma py_slice_inside:
  "0 \<le> a \<Longrightarrow> a \<le> b \<Longrightarrow> nat b \<le> length s \<Longrightarrow>
     py_slice s a b = take (nat b - nat a) (drop (nat a) s)"
  by (simp add: py_slice_def py_index_def Let_def min_def)

lemma py_slice_prefix: "0 \<le> b \<Longrightarrow> py_slice s 0 b = take (nat b) s"
  by (simp add: py_slice_def py_index_def Let_def min_def)

lemma py_slice_suffix: "0 \<le> a \<Longrightarrow> py_slice s a (int (length s)) = drop (nat a) s"
  by (simp add: py_slice_def py_index_def Let_def min_def)

text \<open>
  Claim C6. In "The cat sat. The dog ran." with the coded span \<open>[4, 7)\<close> "cat", replacing
  \<open>[4, 7)\<close> by "kitten" makes that span \<open>[4, 10)\<close> with \<open>seltext\<close> "kitten" and moves a span
  at \<open>[13, 16)\<close> (of any code and coder) to \<open>[16, 19)\<close>; the \<open>seltext\<close> of both equals the
  slice of the new text.
\<close>

theorem cat_to_kitten:
  "textEdit_restricted_menu
     (file_1 cat_text [code_span 1 1 ''A'' 4 7 ''cat'', code_span c 1 who 13 16 ''The''] [] [])
     4 7 (Some ''kitten'')
   = (None,
      file_1 ''The kitten sat. The dog ran.''
        [code_span 1 1 ''A'' 4 10 ''kitten'', code_span c 1 who 16 19 ''The''] [] [],
      [])
   \<and> py_slice ''The kitten sat. The dog ran.'' 4 10 = ''kitten''
   \<and> py_slice ''The kitten sat. The dog ran.'' 16 19 = ''The''"
  by (simp add: edit_defs cat_text_def)

text \<open>
  Claim C2 as stated fails: with the spans \<open>[5, 10)\<close>, \<open>[15, 20)\<close> and \<open>[8, 14)\<close>, replacing
  \<open>[12, 14)\<close> by five characters is not rejected. The span \<open>[8, 14)\<close> contains the
  selection, so it is the coded section being edited and grows to \<open>[8, 17)\<close>.
\<close>

theorem straddle_8_14_counterexample:
  "textEdit_restricted_menu
     (file_1 alphabet [code_span 1 1 ''A'' 5 10 ''fghij'', code_span 1 1 ''A'' 15 20 ''pqrst'',
                       code_span 1 1 ''A'' 8 14 ''ijklmn''] [] [])
     12 14 (Some ''VWXYZ'')
   = (None,
      file_1 ''abcdefghijklVWXYZopqrstuvwxyz''
        [code_span 1 1 ''A'' 5 10 ''fghij'', code_span 1 1 ''A'' 18 23 ''pqrst'',
         code_span 1 1 ''A'' 8 17 ''ijklVWXYZ''] [] [],
      [])"
  by (simp add: edit_defs alphabet_def)

text \<open>
  Claim C2, as amended: for any text of at least 20 characters and any replacement of 5
  characters, the edit is accepted, \<open>[5, 10)\<close> is unchanged, \<open>[15, 20)\<close> becomes \<open>[18, 23)\<close>
  and \<open>[8, 14)\<close> becomes \<open>[8, 17)\<close> with its text read from the new document.
\<close>

theorem edit_12_14_remap:
  assumes "20 \<le> length txt" and "length new_text = 5"
  shows "textEdit_restricted_menu
           (file_1 txt [code_span c1 1 o1 5 10 t1, code_span c2 1 o2 15 20 t2, code_span c3 1 o3 8 14 t3] [] [])
           12 14 (Some new_text)
         = (None,
            file_1 (take 12 txt @ new_text @ drop 14 txt)
              [code_span c1 1 o1 5 10 t1, code_span c2 1 o2 18 23 t2,
               code_span c3 1 o3 8 17 (py_slice (take 12 txt @ new_text @ drop 14 txt) 8 17)] [] [],
            [])"
proof -
  have n: "txt \<noteq> []" using assms(1) by auto
  have s: "py_slice txt 12 14 = take 2 (drop 12 txt)"
    using assms(1) by (simp add: py_slice_inside)
  have l: "length (py_slice txt 12 14) = 2"
    using assms(1) by (simp add: s)
  have e: "py_slice txt 12 14 \<noteq> []" using l by auto
  have b: "py_slice txt 0 12 = take 12 txt" by (simp add: py_slice_prefix)
  have a: "py_slice txt 14 (int (length txt)) = drop 14 txt" by (simp add: py_slice_suffix)
  show ?thesis
    unfolding textEdit_restricted_menu_def restricted_edit_text_def
    using n l e b a assms(2)
    by (simp add: file_1_def code_span_def crossover_check_def crossing_def containing_def
        update_after_selection_def update_selected_section_def post_linked_def shift_code_text_def
        grow_code_text_def update_code_text_def unique_code_text_def code_key_def sql_update_def Let_def
        index_order_def)
qed

theorem edit_12_14_remap_witness:
  "20 \<le> length cat_text \<and> length ''12345'' = 5
   \<and> textEdit_restricted_menu
       (file_1 cat_text [code_span 1 1 ''A'' 5 10 ''at sa'', code_span 2 1 ''B'' 15 20 ''e dog'',
                         code_span 3 1 ''A'' 8 14 ''sat. T''] [] [])
       12 14 (Some ''12345'')
     = (None,
        file_1 ''The cat sat.12345he dog ran.''
          [code_span 1 1 ''A'' 5 10 ''at sa'', code_span 2 1 ''B'' 18 23 ''e dog'',
           code_span 3 1 ''A'' 8 17 ''sat.12345''] [] [],
        [])"
proof -
  have 1: "20 \<le> length cat_text" by (simp add: cat_text_def)
  have 2: "length ''12345'' = 5" by simp
  show ?thesis
    using edit_12_14_remap [OF 1 2, of 1 "''A''" "''at sa''" 2 "''B''" "''e dog''" 3 "''A''" "''sat. T''"] 1
    by (simp add: cat_text_def py_slice_def py_index_def)
qed

text \<open>
  Claim C4 as stated fails. A coded span \<open>[8, 14)\<close> overlaps the selection \<open>[10, 12)\<close>
  without lying inside or outside it, yet the edit is accepted: the span contains the
  selection, so it is the coded section being edited. And \<open>crossover_check\<close> looks for
  crossing rows in \<open>code_text\<close> and \<open>annotation\<close> only: a case link \<open>[2, 6)\<close> that ends
  inside the selection \<open>[4, 8)\<close> does not stop the edit.
\<close>

theorem straddling_spans_accepted_counterexample:
  "textEdit_restricted_menu (file_1 alphabet [code_span 1 1 ''A'' 8 14 ''ijklmn''] [] []) 10 12 (Some ''X'')
   = (None, file_1 ''abcdefghijXmnopqrstuvwxyz'' [code_span 1 1 ''A'' 8 13 ''ijXmn''] [] [], [])
   \<and> textEdit_restricted_menu (file_1 alphabet [] [] [case_link 1 1 1 2 6]) 4 8 (Some ''X'')
   = (None, file_1 ''abcdXijklmnopqrstuvwxyz'' [] [] [case_link 1 1 1 2 6], [])"
  by (simp add: edit_defs alphabet_def)

text \<open>
  Claim C4, as amended. For a selection of 1 to 20 characters: when a coded span of the file
  has its start or its end strictly inside the selection, the menu action shows the warning
  with exactly these spans (in the order of the index) and changes nothing; when no coded
  span but an annotation does,
  it shows the warning with exactly these annotations and changes nothing.
\<close>

theorem crossover_rejects_edit:
  assumes "fulltext (source_x d) \<noteq> ''''"
    and "0 < length (py_slice (fulltext (source_x d)) selstart selend)"
    and "length (py_slice (fulltext (source_x d)) selstart selend) < 21"
  shows "(crossing (sid (source_x d)) selstart selend (code_text d) \<noteq> [] \<longrightarrow>
            textEdit_restricted_menu d selstart selend answer
              = (None, d, [Codes_cross_over_text
                   (map (\<lambda>r. (pos0 r, pos1 r))
                      (index_order (crossing (sid (source_x d)) selstart selend (code_text d))))]))
       \<and> (crossing (sid (source_x d)) selstart selend (code_text d) = []
            \<and> crossing (sid (source_x d)) selstart selend (annotation d) \<noteq> [] \<longrightarrow>
            textEdit_restricted_menu d selstart selend answer
              = (None, d, [Annotations_cross_over_text
                   (map (\<lambda>r. (pos0 r, pos1 r)) (crossing (sid (source_x d)) selstart selend (annotation d)))]))
       \<and> (\<forall>r. r \<in> set (crossing (sid (source_x d)) selstart selend (code_text d)) \<longleftrightarrow>
              r \<in> set (code_text d) \<and> fid r = sid (source_x d)
              \<and> ((selstart < pos0 r \<and> pos0 r < selend) \<or> (selstart < pos1 r \<and> pos1 r < selend)))
       \<and> (\<forall>r. r \<in> set (crossing (sid (source_x d)) selstart selend (annotation d)) \<longleftrightarrow>
              r \<in> set (annotation d) \<and> fid r = sid (source_x d)
              \<and> ((selstart < pos0 r \<and> pos0 r < selend) \<or> (selstart < pos1 r \<and> pos1 r < selend)))"
proof -
  have 1: "crossing (sid (source_x d)) selstart selend (code_text d) \<noteq> [] \<longrightarrow>
            textEdit_restricted_menu d selstart selend answer
              = (None, d, [Codes_cross_over_text
                   (map (\<lambda>r. (pos0 r, pos1 r))
                      (index_order (crossing (sid (source_x d)) selstart selend (code_text d))))])"
    using assms by (simp add: textEdit_restricted_menu_def crossover_check_def Let_def)
  have 2: "crossing (sid (source_x d)) selstart selend (code_text d) = []
            \<and> crossing (sid (source_x d)) selstart selend (annotation d) \<noteq> [] \<longrightarrow>
            textEdit_restricted_menu d selstart selend answer
              = (None, d, [Annotations_cross_over_text
                   (map (\<lambda>r. (pos0 r, pos1 r)) (crossing (sid (source_x d)) selstart selend (annotation d)))])"
    using assms by (simp add: textEdit_restricted_menu_def crossover_check_def Let_def)
  have 3: "\<And>rows :: ('a span_row_scheme) list. \<forall>r. r \<in> set (crossing (sid (source_x d)) selstart selend rows) \<longleftrightarrow>
              r \<in> set rows \<and> fid r = sid (source_x d)
              \<and> ((selstart < pos0 r \<and> pos0 r < selend) \<or> (selstart < pos1 r \<and> pos1 r < selend))"
    by (auto simp: crossing_def)
  show ?thesis using 1 2 3 [of "code_text d"] 3 [of "annotation d"] by blast
qed

theorem crossover_rejects_edit_witness:
  "fulltext (source_x (file_1 cat_text [] [note_row 1 1 ''A'' 10 14 ''why?''] [])) \<noteq> ''''
   \<and> length (py_slice cat_text 12 16) = 4
   \<and> crossing 1 12 16 [note_row 1 1 ''A'' 10 14 ''why?''] = [note_row 1 1 ''A'' 10 14 ''why?'']
   \<and> textEdit_restricted_menu (file_1 cat_text [] [note_row 1 1 ''A'' 10 14 ''why?''] []) 12 16 (Some ''x'')
     = (None, file_1 cat_text [] [note_row 1 1 ''A'' 10 14 ''why?''] [],
        [Annotations_cross_over_text [(10, 14)]])"
proof -
  let ?d = "file_1 cat_text [] [note_row 1 1 ''A'' 10 14 ''why?''] []"
  have sx: "sid (source_x ?d) = 1" "fulltext (source_x ?d) = cat_text"
    "code_text ?d = []" "annotation ?d = [note_row 1 1 ''A'' 10 14 ''why?'']"
    by (simp_all add: file_1_def)
  have 1: "fulltext (source_x ?d) \<noteq> ''''" by (simp add: file_1_def cat_text_def)
  have l: "length (py_slice cat_text 12 16) = 4"
    by (simp add: py_slice_def py_index_def cat_text_def)
  have 2: "0 < length (py_slice (fulltext (source_x ?d)) 12 16)"
    "length (py_slice (fulltext (source_x ?d)) 12 16) < 21"
    by (simp_all add: sx l)
  have c: "crossing 1 12 16 [note_row 1 1 ''A'' 10 14 ''why?''] = [note_row 1 1 ''A'' 10 14 ''why?'']"
    by (simp add: crossing_def note_row_def)
  have e: "crossing 1 12 16 ([] :: code_row list) = []" by (simp add: crossing_def)
  have "textEdit_restricted_menu ?d 12 16 (Some ''x'')
          = (None, ?d, [Annotations_cross_over_text (map (\<lambda>r. (pos0 r, pos1 r))
               [note_row 1 1 ''A'' 10 14 ''why?''])])"
    using crossover_rejects_edit [OF 1 2, of "Some ''x''"] c e by (simp add: sx)
  then show ?thesis using 1 l c by (simp add: note_row_def)
qed

text \<open>
  Claim C3 as stated fails: a span \<open>[3, 5)\<close> that lies inside the edited range \<open>[2, 6)\<close>
  has both ends strictly inside the selection, and the edit is refused.
\<close>

theorem span_inside_edit_counterexample:
  "textEdit_restricted_menu (file_1 alphabet [code_span 1 1 ''A'' 3 5 ''de''] [] []) 2 6 (Some ''xy'')
   = (None, file_1 alphabet [code_span 1 1 ''A'' 3 5 ''de''] [] [], [Codes_cross_over_text [(3, 5)]])"
  by (simp add: edit_defs alphabet_def)

text \<open>The loop over the rows after the selection moves each of them once, when no two of them lie
  exactly \<open>dl\<close> apart.\<close>

lemma shift_loop:
  assumes "update_each (shift_code_text f dl) P T = (None, T2)"
    and "\<And>a. a \<in> set P \<Longrightarrow> (fst a + dl, snd a + dl) \<notin> set P"
  shows "T2 = map (\<lambda>q. if fid q = f \<and> (pos0 q, pos1 q) \<in> set P
                        then q\<lparr>pos0 := pos0 q + dl, pos1 := pos1 q + dl\<rparr> else q) T"
  using assms
proof (induction P arbitrary: T)
  case Nil
  then show ?case by simp
next
  case (Cons i P)
  from Cons.prems(1) obtain T' where s: "shift_code_text f dl i T = Inr T'"
    and r: "update_each (shift_code_text f dl) P T' = (None, T2)"
    by (auto split: sum.splits)
  have T': "T' = sql_update (\<lambda>r. fid r = f \<and> pos0 r = fst i \<and> pos1 r = snd i)
                   (\<lambda>r. r\<lparr>pos0 := fst i + dl, pos1 := snd i + dl\<rparr>) T"
    using s unfolding shift_code_text_def by (rule update_code_text_Inr)
  have nc: "\<And>a. a \<in> set P \<Longrightarrow> (fst a + dl, snd a + dl) \<notin> set P"
    using Cons.prems(2) by auto
  have ni: "(fst i + dl, snd i + dl) \<notin> set P"
    using Cons.prems(2) [of i] by simp
  have T2: "T2 = map (\<lambda>q. if fid q = f \<and> (pos0 q, pos1 q) \<in> set P
                        then q\<lparr>pos0 := pos0 q + dl, pos1 := pos1 q + dl\<rparr> else q) T'"
    using Cons.IH [OF r nc] by simp
  show ?case
    unfolding T2 T' sql_update_def map_map
  proof (rule map_cong [OF refl])
    fix q assume "q \<in> set T"
    show "((\<lambda>q. if fid q = f \<and> (pos0 q, pos1 q) \<in> set P
                 then q\<lparr>pos0 := pos0 q + dl, pos1 := pos1 q + dl\<rparr> else q) \<circ>
           (\<lambda>r. if fid r = f \<and> pos0 r = fst i \<and> pos1 r = snd i
                 then r\<lparr>pos0 := fst i + dl, pos1 := snd i + dl\<rparr> else r)) q
          = (if fid q = f \<and> (pos0 q, pos1 q) \<in> set (i # P)
             then q\<lparr>pos0 := pos0 q + dl, pos1 := pos1 q + dl\<rparr> else q)"
    proof (cases "fid q = f \<and> pos0 q = fst i \<and> pos1 q = snd i")
      case True
      then have "(pos0 q, pos1 q) = i" by simp
      then show ?thesis using True ni by auto
    next
      case False
      then have "fid q = f \<Longrightarrow> (pos0 q, pos1 q) \<noteq> i" by auto
      then show ?thesis using False by auto
    qed
  qed
qed

text \<open>A row that no statement of the loop selects stays in the table.\<close>

lemma grow_loop_keeps:
  assumes "update_each (grow_code_text text f dl) C T = (None, T3)"
    and "x \<in> set T" and "fid x \<noteq> f \<or> (pos0 x, pos1 x) \<notin> set C"
  shows "x \<in> set T3"
  using assms
proof (induction C arbitrary: T)
  case Nil
  then show ?case by simp
next
  case (Cons i C)
  from Cons.prems(1) obtain T' where s: "grow_code_text text f dl i T = Inr T'"
    and r: "update_each (grow_code_text text f dl) C T' = (None, T3)"
    by (auto split: sum.splits)
  have T': "T' = sql_update (\<lambda>r. fid r = f \<and> pos0 r = fst i \<and> pos1 r = snd i)
                   (\<lambda>r. r\<lparr>seltext := py_slice text (fst i) (snd i + dl), pos1 := snd i + dl\<rparr>) T"
    using s unfolding grow_code_text_def by (rule update_code_text_Inr)
  have "\<not> (fid x = f \<and> pos0 x = fst i \<and> pos1 x = snd i)"
    using Cons.prems(3) by auto
  then have "x \<in> set T'"
    using Cons.prems(2) unfolding T' sql_update_def by force
  moreover have "fid x \<noteq> f \<or> (pos0 x, pos1 x) \<notin> set C"
    using Cons.prems(3) by auto
  ultimately show ?case using Cons.IH [OF r] by blast
qed

text \<open>A row that contains the selection gets its new end and text once.\<close>

lemma grow_loop:
  assumes "update_each (grow_code_text text f dl) C T = (None, T3)"
    and "r \<in> set T" and "fid r = f" and "(pos0 r, pos1 r) \<in> set C"
    and "(pos0 r, pos1 r + dl) \<notin> set C"
  shows "r\<lparr>seltext := py_slice text (pos0 r) (pos1 r + dl), pos1 := pos1 r + dl\<rparr> \<in> set T3"
  using assms
proof (induction C arbitrary: T)
  case Nil
  then show ?case by simp
next
  case (Cons i C)
  from Cons.prems(1) obtain T' where s: "grow_code_text text f dl i T = Inr T'"
    and u: "update_each (grow_code_text text f dl) C T' = (None, T3)"
    by (auto split: sum.splits)
  have T': "T' = sql_update (\<lambda>r. fid r = f \<and> pos0 r = fst i \<and> pos1 r = snd i)
                   (\<lambda>r. r\<lparr>seltext := py_slice text (fst i) (snd i + dl), pos1 := snd i + dl\<rparr>) T"
    using s unfolding grow_code_text_def by (rule update_code_text_Inr)
  have n: "(pos0 r, pos1 r + dl) \<notin> set C" using Cons.prems(5) by simp
  show ?case
  proof (cases "i = (pos0 r, pos1 r)")
    case True
    let ?r' = "r\<lparr>seltext := py_slice text (pos0 r) (pos1 r + dl), pos1 := pos1 r + dl\<rparr>"
    have "?r' \<in> set T'"
      using Cons.prems(2,3) True unfolding T' sql_update_def by force
    moreover have "(pos0 ?r', pos1 ?r') \<notin> set C" using n by simp
    ultimately show ?thesis using grow_loop_keeps [OF u] by blast
  next
    case False
    then have "\<not> (fid r = f \<and> pos0 r = fst i \<and> pos1 r = snd i)" by auto
    then have "r \<in> set T'"
      using Cons.prems(2) unfolding T' sql_update_def by force
    moreover have "(pos0 r, pos1 r) \<in> set C" using Cons.prems(4) False by auto
    ultimately show ?thesis using Cons.IH [OF u _ Cons.prems(3) _ n] by blast
  qed
qed

lemma update_after_selection_code:
  assumes "update_after_selection d1 s e dl = (err, d2)"
  shows "source_x d2 = source_x d1
       \<and> update_each (shift_code_text (sid (source_x d1)) dl)
           (map (\<lambda>r. (pos0 r, pos1 r)) (index_order (post_linked (sid (source_x d1)) s e (code_text d1))))
           (code_text d1) = (err, code_text d2)"
  using assms
  by (auto simp: update_after_selection_def Let_def split: prod.splits)

lemma crossover_check_coded_section:
  assumes "crossing (sid (source_x d)) s e (code_text d) = []"
  shows "coded_section (fst (crossover_check d s e))
           = map (\<lambda>r. (pos0 r, pos1 r)) (index_order (containing (sid (source_x d)) s e (code_text d)))"
  using assms by (simp add: crossover_check_def Let_def)

lemma crossover_check_legal:
  assumes "crossing (sid (source_x d)) s e (code_text d) = []"
    and "crossing (sid (source_x d)) s e (annotation d) = []"
  shows "crossover (fst (crossover_check d s e)) = False \<and> snd (crossover_check d s e) = []"
  using assms by (simp add: crossover_check_def Let_def)

lemma update_selected_section_code:
  assumes "update_selected_section d2 s e dl = (None, d3, ws)"
  shows "source_x d3 = source_x d2
       \<and> update_each (grow_code_text (fulltext (source_x d2)) (sid (source_x d2)) dl)
           (coded_section (fst (crossover_check d2 s e))) (code_text d2) = (None, code_text d3)"
  using assms
  by (auto simp: update_selected_section_def Let_def split: prod.splits option.splits)

lemma menu_accepts:
  assumes t: "fulltext (source_x d) \<noteq> []"
    and r: "0 \<le> s" "s < e" "e \<le> int (length (fulltext (source_x d)))" "e - s \<le> 20"
    and c: "crossing (sid (source_x d)) s e (code_text d) = []"
           "crossing (sid (source_x d)) s e (annotation d) = []"
    and n: "int (length new_text) - (e - s) \<noteq> 0"
    and m: "textEdit_restricted_menu d s e (Some new_text) = (None, d', ws)"
  shows "\<exists>d2. update_after_selection
                (d\<lparr>source_x := (source_x d)\<lparr>fulltext :=
                     take (nat s) (fulltext (source_x d)) @ new_text @ drop (nat e) (fulltext (source_x d))\<rparr>\<rparr>)
                s e (int (length new_text) - (e - s)) = (None, d2)
              \<and> update_selected_section d2 s e (int (length new_text) - (e - s)) = (None, d', ws)"
proof -
  let ?full = "fulltext (source_x d)"
  have sl: "py_slice ?full s e = take (nat e - nat s) (drop (nat s) ?full)"
    using r by (simp add: py_slice_inside)
  have l: "int (length (py_slice ?full s e)) = e - s"
    using r by (simp add: sl)
  have l1: "0 < length (py_slice ?full s e)" "length (py_slice ?full s e) < 21"
    "\<not> 20 < length (py_slice ?full s e)"
    using l r by linarith+
  have b: "py_slice ?full 0 s = take (nat s) ?full" using r by (simp add: py_slice_prefix)
  have a: "py_slice ?full e (int (length ?full)) = drop (nat e) ?full"
    using r by (simp add: py_slice_suffix)
  have k: "crossover (fst (crossover_check d s e)) = False"
    using crossover_check_legal [OF c] by simp
  have "restricted_edit_text d s e (Some new_text) = (None, d', ws)"
    using m t l1 k by (simp add: textEdit_restricted_menu_def Let_def split: prod.splits)
  then show ?thesis
    using l1(3) l n b a
    by (auto simp: restricted_edit_text_def Let_def split: prod.splits option.splits)
qed

text \<open>
  Two cases the amended claim C3 leaves out. A replacement of the same length returns
  before the coded section is rewritten, so \<open>seltext\<close> keeps the old text. The statements
  that move the spans after the selection select by position and run one after another, so
  of two spans \<open>dl\<close> apart the first is moved twice.
\<close>

lemma same_length_edit_keeps_old_seltext:
  "textEdit_restricted_menu (file_1 ''teh cat'' [code_span 1 1 ''A'' 0 3 ''teh''] [] []) 0 3 (Some ''the'')
   = (None, file_1 ''the cat'' [code_span 1 1 ''A'' 0 3 ''teh''] [] [], [])"
  by (simp add: edit_defs)

text \<open>
  The order of the fetched rows decides which statement of a loop meets the unique
  constraint. Two spans \<open>[0, 8)\<close> and \<open>[0, 6)\<close> of one code and coder, stored in this
  order, both contain the selection \<open>[2, 4)\<close> and are fetched as \<open>[0, 6)\<close>, \<open>[0, 8)\<close>.
  Putting four characters in place of the two raises on the first statement (the text is
  already written, the spans stay as they were); removing the two characters goes through.
\<close>

lemma coded_section_in_index_order:
  "textEdit_restricted_menu
     (file_1 ''abcdefghij'' [code_span 1 1 ''A'' 0 8 ''abcdefgh'', code_span 1 1 ''A'' 0 6 ''abcdef''] [] [])
     2 4 (Some ''wxyz'')
   = (Some IntegrityError,
      file_1 ''abwxyzefghij'' [code_span 1 1 ''A'' 0 8 ''abcdefgh'', code_span 1 1 ''A'' 0 6 ''abcdef''] [] [],
      [])
   \<and> textEdit_restricted_menu
     (file_1 ''abcdefghij'' [code_span 1 1 ''A'' 0 8 ''abcdefgh'', code_span 1 1 ''A'' 0 6 ''abcdef''] [] [])
     2 4 (Some '''')
   = (None,
      file_1 ''abefghij'' [code_span 1 1 ''A'' 0 6 ''abefgh'', code_span 1 1 ''A'' 0 4 ''abef''] [] [],
      [])"
  by (simp add: edit_defs)

lemma spans_delta_apart_move_twice:
  "textEdit_restricted_menu
     (file_1 alphabet [code_span 1 1 ''A'' 15 20 ''pqrst'', code_span 2 1 ''A'' 18 23 ''stuvw''] [] [])
     12 14 (Some ''VWXYZ'')
   = (None,
      file_1 ''abcdefghijklVWXYZopqrstuvwxyz''
        [code_span 1 1 ''A'' 21 26 ''pqrst'', code_span 2 1 ''A'' 21 26 ''stuvw''] [] [], [])"
  by (simp add: edit_defs alphabet_def)

text \<open>
  Claim C3, as amended. Take an edit of the range \<open>[s, e)\<close> of 1 to 20 characters that
  passes the crossover check and changes the length by \<open>dl \<noteq> 0\<close>, and a coded span
  \<open>r\<close> of the file that contains the range (\<open>pos0 <= s\<close> and \<open>e <= pos1\<close>). If no two
  coded spans after the range lie exactly \<open>dl\<close> apart, every coded span after the range
  still lies at or after \<open>e\<close> once moved by \<open>dl\<close>, no coded span of the file has the range
  \<open>[pos0 r, pos1 r + dl)\<close>, and no statement raises, then the new text is the old one with
  the range replaced, and the table holds \<open>r\<close> with end \<open>pos1 r + dl\<close>, the same start, and
  \<open>seltext\<close> the slice of the new text from \<open>pos0 r\<close> to \<open>pos1 r + dl\<close>.
\<close>

theorem edit_grows_containing_span:
  fixes d :: dialog_manage_files
  defines "f \<equiv> sid (source_x d)"
  defines "full \<equiv> fulltext (source_x d)"
  assumes range: "0 \<le> s" "s < e" "e \<le> int (length full)" "e - s \<le> 20"
    and legal: "crossing f s e (code_text d) = []" "crossing f s e (annotation d) = []"
    and delta: "dl = int (length new_text) - (e - s)" "dl \<noteq> 0"
    and span: "r \<in> set (code_text d)" "fid r = f" "pos0 r \<le> s" "e \<le> pos1 r"
    and apart: "\<And>a b. a \<in> set (post_linked f s e (code_text d)) \<Longrightarrow>
                  b \<in> set (post_linked f s e (code_text d)) \<Longrightarrow>
                  (pos0 b, pos1 b) \<noteq> (pos0 a + dl, pos1 a + dl)"
    and after: "\<And>q. q \<in> set (post_linked f s e (code_text d)) \<Longrightarrow>
                  e \<le> pos0 q + dl \<and> e \<le> pos1 q + dl"
    and free: "\<And>q. q \<in> set (code_text d) \<Longrightarrow> fid q = f \<Longrightarrow>
                  (pos0 q, pos1 q) \<noteq> (pos0 r, pos1 r + dl)"
    and accepted: "textEdit_restricted_menu d s e (Some new_text) = (None, d', ws)"
  shows "fulltext (source_x d') = take (nat s) full @ new_text @ drop (nat e) full
       \<and> r\<lparr>seltext := py_slice (fulltext (source_x d')) (pos0 r) (pos1 r + dl), pos1 := pos1 r + dl\<rparr>
           \<in> set (code_text d')"
proof -
  let ?full' = "take (nat s) full @ new_text @ drop (nat e) full"
  let ?d1 = "d\<lparr>source_x := (source_x d)\<lparr>fulltext := ?full'\<rparr>\<rparr>"
  let ?T = "code_text d"
  let ?P = "map (\<lambda>r. (pos0 r, pos1 r)) (index_order (post_linked f s e ?T))"
  have t: "fulltext (source_x d) \<noteq> []" using range unfolding full_def by auto
  obtain d2 where a: "update_after_selection ?d1 s e dl = (None, d2)"
    and b: "update_selected_section d2 s e dl = (None, d', ws)"
    using menu_accepts [OF t range(1,2) range(3) [unfolded full_def] range(4)
        legal [unfolded f_def] delta(2) [unfolded delta(1)] accepted [unfolded delta(1)]]
    unfolding delta(1) full_def by blast
  have sx: "source_x d2 = source_x ?d1"
    and lp: "update_each (shift_code_text f dl) ?P ?T = (None, code_text d2)"
    using update_after_selection_code [OF a] by (simp_all add: f_def)
  have f2: "sid (source_x d2) = f" and x2: "fulltext (source_x d2) = ?full'"
    using sx by (simp_all add: f_def)
  have nc: "\<And>a. a \<in> set ?P \<Longrightarrow> (fst a + dl, snd a + dl) \<notin> set ?P"
    using apart by fastforce
  have T2: "code_text d2 = map (\<lambda>q. if fid q = f \<and> (pos0 q, pos1 q) \<in> set ?P
                        then q\<lparr>pos0 := pos0 q + dl, pos1 := pos1 q + dl\<rparr> else q) ?T"
    using shift_loop [OF lp nc] by simp
  have post: "\<And>q. q \<in> set ?T \<Longrightarrow> fid q = f \<Longrightarrow> (pos0 q, pos1 q) \<in> set ?P \<Longrightarrow>
                  q \<in> set (post_linked f s e ?T)"
    by (auto simp: post_linked_def)
  have rows2: "\<And>q2. q2 \<in> set (code_text d2) \<Longrightarrow>
      q2 \<in> set ?T \<or> (fid q2 = f \<and> e \<le> pos0 q2 \<and> e \<le> pos1 q2)"
  proof -
    fix q2 assume "q2 \<in> set (code_text d2)"
    then obtain q where q: "q \<in> set ?T"
      and q2: "q2 = (if fid q = f \<and> (pos0 q, pos1 q) \<in> set ?P
                     then q\<lparr>pos0 := pos0 q + dl, pos1 := pos1 q + dl\<rparr> else q)"
      unfolding T2 by auto
    show "q2 \<in> set ?T \<or> (fid q2 = f \<and> e \<le> pos0 q2 \<and> e \<le> pos1 q2)"
    proof (cases "fid q = f \<and> (pos0 q, pos1 q) \<in> set ?P")
      case True
      then have "q \<in> set (post_linked f s e ?T)" using post q by blast
      then show ?thesis using after q2 True by simp
    next
      case False
      then have "q2 = q" using q2 by (simp only: if_False)
      then show ?thesis using q by simp
    qed
  qed
  have rP: "(pos0 r, pos1 r) \<notin> set ?P"
    using span(3,4) by (auto simp: post_linked_def)
  have r2: "r \<in> set (code_text d2)"
    unfolding T2 using span(1) rP by force
  have cr2: "crossing (sid (source_x d2)) s e (code_text d2) = []"
  proof -
    have "\<And>q2. q2 \<in> set (code_text d2) \<Longrightarrow>
        \<not> (fid q2 = f \<and> ((pos0 q2 > s \<and> pos0 q2 < e) \<or> (pos1 q2 > s \<and> pos1 q2 < e)))"
    proof -
      fix q2 assume "q2 \<in> set (code_text d2)"
      then consider "q2 \<in> set ?T" | "fid q2 = f \<and> e \<le> pos0 q2 \<and> e \<le> pos1 q2"
        using rows2 by blast
      then show "\<not> (fid q2 = f \<and> ((pos0 q2 > s \<and> pos0 q2 < e) \<or> (pos1 q2 > s \<and> pos1 q2 < e)))"
      proof cases
        case 1
        then show ?thesis using legal(1) by (auto simp: crossing_def filter_empty_conv)
      next
        case 2
        then show ?thesis by auto
      qed
    qed
    then show ?thesis by (auto simp: crossing_def filter_empty_conv f2)
  qed
  let ?C = "map (\<lambda>r. (pos0 r, pos1 r)) (index_order (containing f s e (code_text d2)))"
  have cs: "coded_section (fst (crossover_check d2 s e)) = ?C"
    using crossover_check_coded_section [OF cr2] by (simp add: f2)
  have sx': "source_x d' = source_x d2"
    and gl: "update_each (grow_code_text ?full' f dl) ?C (code_text d2) = (None, code_text d')"
    using update_selected_section_code [OF b] by (simp_all add: cs f2 x2)
  have rC: "(pos0 r, pos1 r) \<in> set ?C"
    using r2 span(2,3,4) by (force simp: containing_def)
  have nC: "(pos0 r, pos1 r + dl) \<notin> set ?C"
  proof
    assume "(pos0 r, pos1 r + dl) \<in> set ?C"
    then obtain q2 where q2: "q2 \<in> set (code_text d2)" "fid q2 = f" "pos0 q2 \<le> s"
      and p: "(pos0 q2, pos1 q2) = (pos0 r, pos1 r + dl)"
      by (auto simp: containing_def)
    from rows2 [OF q2(1)] show False
    proof
      assume "q2 \<in> set ?T"
      then show False using free q2(2) p by blast
    next
      assume "fid q2 = f \<and> e \<le> pos0 q2 \<and> e \<le> pos1 q2"
      then show False using q2(3) range(2) by linarith
    qed
  qed
  have "r\<lparr>seltext := py_slice ?full' (pos0 r) (pos1 r + dl), pos1 := pos1 r + dl\<rparr> \<in> set (code_text d')"
    using gl r2 span(2) rC nC by (rule grow_loop)
  moreover have "fulltext (source_x d') = ?full'" using sx' x2 by simp
  ultimately show ?thesis by simp
qed

text \<open>
  Replacing "kitten" \<open>[4, 10)\<close> by "cat" (\<open>dl = -3\<close>): the span \<open>[4, 10)\<close> becomes
  \<open>[4, 7)\<close> "cat".
\<close>

theorem edit_grows_containing_span_witness:
  "crossing 1 4 10 [code_span 1 1 ''A'' 4 10 ''kitten'', code_span 2 1 ''B'' 16 19 ''The''] = []
   \<and> post_linked 1 4 10 [code_span 1 1 ''A'' 4 10 ''kitten'', code_span 2 1 ''B'' 16 19 ''The'']
       = [code_span 2 1 ''B'' 16 19 ''The'']
   \<and> textEdit_restricted_menu
       (file_1 ''The kitten sat. The dog ran.''
          [code_span 1 1 ''A'' 4 10 ''kitten'', code_span 2 1 ''B'' 16 19 ''The''] [] [])
       4 10 (Some ''cat'')
     = (None,
        file_1 cat_text [code_span 1 1 ''A'' 4 7 ''cat'', code_span 2 1 ''B'' 13 16 ''The''] [] [], [])
   \<and> code_span 1 1 ''A'' 4 7 ''cat''
       \<in> set (code_text (file_1 cat_text
                [code_span 1 1 ''A'' 4 7 ''cat'', code_span 2 1 ''B'' 13 16 ''The''] [] []))"
proof -
  let ?A = "code_span 1 1 ''A'' 4 10 ''kitten''"
  let ?B = "code_span 2 1 ''B'' 16 19 ''The''"
  let ?d = "file_1 ''The kitten sat. The dog ran.'' [?A, ?B] [] []"
  let ?d' = "file_1 cat_text [code_span 1 1 ''A'' 4 7 ''cat'', code_span 2 1 ''B'' 13 16 ''The''] [] []"
  have sx: "sid (source_x ?d) = 1" "fulltext (source_x ?d) = ''The kitten sat. The dog ran.''"
    "code_text ?d = [?A, ?B]" "annotation ?d = []"
    by (simp_all add: file_1_def)
  have c: "crossing 1 4 10 [?A, ?B] = []" by (simp add: crossing_def code_span_def)
  have p: "post_linked 1 4 10 [?A, ?B] = [?B]" by (simp add: post_linked_def code_span_def)
  have m: "textEdit_restricted_menu ?d 4 10 (Some ''cat'') = (None, ?d', [])"
    by (simp add: edit_defs cat_text_def)
  have 1: "(0::int) \<le> 4" "(4::int) < 10" "10 \<le> int (length (fulltext (source_x ?d)))" "(10::int) - 4 \<le> 20"
    by (simp_all add: sx)
  have 2: "crossing (sid (source_x ?d)) 4 10 (code_text ?d) = []"
    "crossing (sid (source_x ?d)) 4 10 (annotation ?d) = []"
    using c by (simp_all add: sx crossing_def)
  have 3: "(-3::int) = int (length ''cat'') - (10 - 4)" "(-3::int) \<noteq> 0" by simp_all
  have 4: "?A \<in> set (code_text ?d)" "fid ?A = sid (source_x ?d)" "pos0 ?A \<le> 4" "10 \<le> pos1 ?A"
    by (simp_all add: file_1_def code_span_def)
  have 5: "\<And>a b. a \<in> set (post_linked (sid (source_x ?d)) 4 10 (code_text ?d)) \<Longrightarrow>
                  b \<in> set (post_linked (sid (source_x ?d)) 4 10 (code_text ?d)) \<Longrightarrow>
                  (pos0 b, pos1 b) \<noteq> (pos0 a + - 3, pos1 a + - 3)"
    unfolding sx p by (simp_all add: code_span_def)
  have 6: "\<And>q. q \<in> set (post_linked (sid (source_x ?d)) 4 10 (code_text ?d)) \<Longrightarrow>
                  10 \<le> pos0 q + - 3 \<and> 10 \<le> pos1 q + - 3"
    unfolding sx p by (simp_all add: code_span_def)
  have 7: "\<And>q. q \<in> set (code_text ?d) \<Longrightarrow> fid q = sid (source_x ?d) \<Longrightarrow>
                  (pos0 q, pos1 q) \<noteq> (pos0 ?A, pos1 ?A + - 3)"
    unfolding sx by (auto simp: code_span_def)
  have "?A\<lparr>seltext := py_slice (fulltext (source_x ?d')) (pos0 ?A) (pos1 ?A + - 3), pos1 := pos1 ?A + - 3\<rparr>
          \<in> set (code_text ?d')"
    using edit_grows_containing_span [OF 1 2 3 4 5 6 7 m] by blast
  moreover have "?A\<lparr>seltext := py_slice (fulltext (source_x ?d')) (pos0 ?A) (pos1 ?A + - 3), pos1 := pos1 ?A + - 3\<rparr>
          = code_span 1 1 ''A'' 4 7 ''cat''"
    by (simp add: file_1_def code_span_def cat_text_def py_slice_def py_index_def)
  ultimately show ?thesis using c p m by simp
qed

subsection \<open>Automatic coding\<close>

text \<open>
  A run of guarded inserts keeps the rows it finds, in place, adds only attempted rows, leaves
  a row for every attempted key, and keeps the keys unique.
\<close>

lemma fold_try_insert:
  "\<exists>new. fold try_insert rs t = t @ new \<and> set new \<subseteq> set rs
         \<and> code_key ` set rs \<subseteq> code_key ` set (t @ new)
         \<and> (unique_code_text t \<longrightarrow> unique_code_text (t @ new))"
proof (induction rs arbitrary: t)
  case Nil
  then show ?case by simp
next
  case (Cons r rs)
  show ?case
  proof (cases "code_key r \<in> set (map code_key t)")
    case True
    then have s: "try_insert r t = t" by (simp add: try_insert_def insert_code_text_def)
    obtain new where n: "fold try_insert rs t = t @ new" "set new \<subseteq> set rs"
      "code_key ` set rs \<subseteq> code_key ` set (t @ new)"
      "unique_code_text t \<longrightarrow> unique_code_text (t @ new)"
      using Cons.IH [of t] by blast
    have "code_key r \<in> code_key ` set (t @ new)" using True by auto
    then show ?thesis using n s by auto
  next
    case False
    then have s: "try_insert r t = t @ [r]" by (simp add: try_insert_def insert_code_text_def)
    obtain new where n: "fold try_insert rs (t @ [r]) = (t @ [r]) @ new" "set new \<subseteq> set rs"
      "code_key ` set rs \<subseteq> code_key ` set ((t @ [r]) @ new)"
      "unique_code_text (t @ [r]) \<longrightarrow> unique_code_text ((t @ [r]) @ new)"
      using Cons.IH [of "t @ [r]"] by blast
    have u: "unique_code_text t \<Longrightarrow> unique_code_text (t @ [r])"
      using False by (simp add: unique_code_text_def)
    have "fold try_insert (r # rs) t = t @ (r # new)" using n(1) s by simp
    moreover have "set (r # new) \<subseteq> set (r # rs)" using n(2) by auto
    moreover have "code_key ` set (r # rs) \<subseteq> code_key ` set (t @ (r # new))" using n(3) by auto
    moreover have "unique_code_text t \<longrightarrow> unique_code_text (t @ (r # new))" using n(4) u by simp
    ultimately show ?thesis by blast
  qed
qed

text \<open>
  Claim C7, as amended. A run of \<open>auto_code\<close> or of \<open>code_sentences\<close> always ends with
  a table: the rows stored before are all kept, unchanged and in place; the rows added are
  among the matches the run tried to insert; for every match tried, a row with its key is
  stored afterwards (a conflict on one does not keep a later one out); and the keys stay
  unique.
\<close>

theorem auto_coding_goes_on_after_conflict:
  assumes "find_text \<noteq> ''''" and "files \<noteq> []" and "text \<noteq> ''''" and "ending \<noteq> ''''"
  shows "(\<exists>new. code_text (snd (snd (auto_code (Some (Code_item c)) (Some find_text) (Some files) now d)))
                  = code_text d @ new
               \<and> set new \<subseteq> set (auto_code_attempts c (codername d) now
                                    (filter (\<lambda>t. t \<noteq> '''') (remdups (py_split find_text ''|''))) files)
               \<and> code_key ` set (auto_code_attempts c (codername d) now
                                    (filter (\<lambda>t. t \<noteq> '''') (remdups (py_split find_text ''|''))) files)
                   \<subseteq> code_key ` set (code_text d @ new)
               \<and> (unique_code_text (code_text d) \<longrightarrow> unique_code_text (code_text d @ new)))
       \<and> (\<exists>new. code_text (snd (snd (code_sentences (Some (Code_item c)) (Some text) (Some ending) files now d)))
                  = code_text d @ new
               \<and> set new \<subseteq> set (code_sentences_attempts c (codername d) now text ending files)
               \<and> code_key ` set (code_sentences_attempts c (codername d) now text ending files)
                   \<subseteq> code_key ` set (code_text d @ new)
               \<and> (unique_code_text (code_text d) \<longrightarrow> unique_code_text (code_text d @ new)))"
proof -
  have a: "code_text (snd (snd (auto_code (Some (Code_item c)) (Some find_text) (Some files) now d)))
        = fold try_insert (auto_code_attempts c (codername d) now
             (filter (\<lambda>t. t \<noteq> '''') (remdups (py_split find_text ''|''))) files) (code_text d)"
    using assms(1,2) by (simp add: auto_code_def Let_def reload_code_text)
  have b: "code_text (snd (snd (code_sentences (Some (Code_item c)) (Some text) (Some ending) files now d)))
        = fold try_insert (code_sentences_attempts c (codername d) now text ending files) (code_text d)"
    using assms(3,4) by (simp add: code_sentences_def reload_code_text)
  show ?thesis
    unfolding a b using fold_try_insert by blast
qed

lemma three_cats_starts: "finditer ''cat'' 0 0 ''cat cat cat'' = [0, 4, 8]"
  by simp

lemma three_sentences: "py_split ''a cat. b cat. c cat.'' ''. '' = [''a cat'', ''b cat'', ''c cat.'']"
  by (simp add: py_split_def)

lemmas autocode_defs =
  auto_code_def code_sentences_def auto_code_attempts_def auto_code_items_def
  code_sentences_attempts_def file_sentence_items_def try_insert_def insert_code_text_def
  code_key_def coding_dialog_def code_span_def text_file_def py_split_def
  get_coded_text_update_eventfilter_tooltips_def Let_def

text \<open>
  Claim C7 as stated fails: no run reports the three counts. For three occurrences of
  "cat", one of them coded before, \<open>auto_code\<close> logs one line with the file names and the
  text; \<open>code_sentences\<close> logs the one number 3 as "added codes" while two rows are added
  to the one stored before.
\<close>

theorem auto_coding_reports_no_counts_counterexample:
  "fst (snd (auto_code (Some (Code_item 1)) (Some ''cat'') (Some [text_file ''cat cat cat''])
               ''2020-06-01 09:00:00'' (coding_dialog [code_span 1 1 ''A'' 4 7 ''cat''] ''cat cat cat'')))
     = [''Automatic coding in files: interview.txt . with text: cat'']
   \<and> fst (snd (code_sentences (Some (Code_item 1)) (Some ''cat'') (Some ''. '')
               [text_file ''a cat. b cat. c cat.''] ''2020-06-01 09:00:00''
               (coding_dialog [code_span 1 1 ''A'' 7 12 ''b cat''] ''a cat. b cat. c cat.'')))
     = [(''interview.txt'', 3)]
   \<and> length (code_text (snd (snd (code_sentences (Some (Code_item 1)) (Some ''cat'') (Some ''. '')
               [text_file ''a cat. b cat. c cat.''] ''2020-06-01 09:00:00''
               (coding_dialog [code_span 1 1 ''A'' 7 12 ''b cat''] ''a cat. b cat. c cat.''))))) = 3"
  by (simp add: autocode_defs)

text \<open>
  Three occurrences of "cat", the one at \<open>[4, 7)\<close> coded before: the row stored before is
  kept and the other two are inserted.
\<close>

theorem auto_coding_goes_on_after_conflict_witness:
  "''cat'' \<noteq> '''' \<and> [text_file ''cat cat cat''] \<noteq> [] \<and> ''. '' \<noteq> ''''
   \<and> map (\<lambda>r. (pos0 r, pos1 r))
        (auto_code_attempts 1 ''A'' ''2020-06-01 09:00:00'' [''cat''] [text_file ''cat cat cat''])
      = [(0, 3), (4, 7), (8, 11)]
   \<and> map (\<lambda>r. (pos0 r, pos1 r, date r))
        (code_text (snd (snd (auto_code (Some (Code_item 1)) (Some ''cat'') (Some [text_file ''cat cat cat''])
               ''2020-06-01 09:00:00'' (coding_dialog [code_span 1 1 ''A'' 4 7 ''cat''] ''cat cat cat'')))))
      = [(4, 7, ''2020-05-01 10:00:00''), (0, 3, ''2020-06-01 09:00:00''), (8, 11, ''2020-06-01 09:00:00'')]"
  using auto_coding_goes_on_after_conflict
    [of "''cat''" "[text_file ''cat cat cat'']" "''cat''" "''. ''" 1 "''2020-06-01 09:00:00''"
        "coding_dialog [code_span 1 1 ''A'' 4 7 ''cat''] ''cat cat cat''"]
  by (simp add: autocode_defs)

end
